theory Spec2Isabelle
  imports Main
begin

section \<open>Python values shared by the modules\<close>

text \<open>
  Strings are \<^typ>\<open>string\<close>, read as ASCII text.  An exception is its class together
  with the text \<open>str(e)\<close>.  Only classes below \<open>Exception\<close> are modelled, which is
  what the standard library calls used here raise: \<open>UnicodeError\<close> counts as
  \<open>ValueError\<close> (it is a subclass), \<open>socket.gaierror\<close> is \<open>GaiError\<close>,
  \<open>urllib.error.HTTPError\<close> carries its status code and is a subclass of
  \<open>URLError\<close>, \<open>googleapiclient.errors.HttpError\<close> is \<open>ApiHttpError\<close>, and
  \<open>OtherException\<close> stands for every other subclass of \<open>Exception\<close>.
\<close>

datatype exc_class =
    ValueError
  | GaiError
  | URLError
  | HTTPError nat
  | TimeoutError
  | ApiHttpError
  | OtherException

datatype py_exception = Exc exc_class string

fun exc_text :: "py_exception \<Rightarrow> string" where
  "exc_text (Exc c m) = m"

definition startswith :: "string \<Rightarrow> string \<Rightarrow> bool" where
  "startswith s p = (take (length p) s = p)"

definition lower_char :: "char \<Rightarrow> char" where
  "lower_char c =
     (case map_of (zip ''ABCDEFGHIJKLMNOPQRSTUVWXYZ'' ''abcdefghijklmnopqrstuvwxyz'') c of
        Some l \<Rightarrow> l
      | None \<Rightarrow> c)"

definition lower :: "string \<Rightarrow> string" where
  "lower s = map lower_char s"

definition digit_char :: "nat \<Rightarrow> char" where
  "digit_char d = ''0123456789'' ! d"

fun str_nat :: "nat \<Rightarrow> string" where
  "str_nat n = (if n < 10 then [digit_char n] else str_nat (n div 10) @ [digit_char (n mod 10)])"

section \<open>app/services/gmail/helpers.py: validate\_unsafe\_url\<close>

text \<open>
  The standard library and the network are the environment of the code:
  \<open>urllib.parse.urlparse\<close> (the scheme and hostname of its result, or the exception it
  raises), \<open>socket.getaddrinfo\<close> (the host strings \<open>addr_info[4][0]\<close> of the records it
  returns, in order, or the exception it raises), \<open>ipaddress.ip_address\<close> (the four
  properties the code reads, or \<open>None\<close> for its \<open>ValueError\<close>),
  \<open>urllib.request.Request\<close> (the exception its constructor raises for a link it
  cannot take apart, or \<open>None\<close>) and what the network does during one call of
  \<open>urllib.request.urlopen\<close>.
\<close>

record parse_result =
  scheme :: string
  hostname :: "string option"

record ip_info =
  is_private :: bool
  is_loopback :: bool
  is_link_local :: bool
  is_unspecified :: bool

datatype http_method = POST | GET

record response =
  status :: nat
  reason :: string
  body :: string

text \<open>
  One call of \<open>urlopen\<close> as the network sees it.  The default opener follows redirects
  inside the call (\<open>HTTPRedirectHandler\<close>): \<open>redirects\<close> lists the targets it requests
  in turn, each named by a server in a \<open>Location\<close> header.  \<open>final\<close> is what ends the
  call: an exception of the transport, or the last answer of a server, of any status.
\<close>

record exchange =
  redirects :: "string list"
  final :: "py_exception + response"

record env =
  urlparse :: "string \<Rightarrow> py_exception + parse_result"
  getaddrinfo :: "string \<Rightarrow> py_exception + string list"
  ip_address :: "string \<Rightarrow> ip_info option"
  request :: "string \<Rightarrow> py_exception option"
  http_exchange :: "http_method \<Rightarrow> string \<Rightarrow> exchange"

text \<open>
  What \<open>urlopen\<close> hands to its caller.  The default opener passes on an answer whose
  status is in 200..299 and raises every other last answer as \<open>HTTPError\<close>
  (\<open>HTTPErrorProcessor\<close>, \<open>HTTPDefaultErrorHandler\<close>), whose text is
  \<open>HTTP Error <code>: <reason>\<close>; so the caller never reads a status outside 200..299
  from a response.
\<close>

definition urlopen :: "env \<Rightarrow> http_method \<Rightarrow> string \<Rightarrow> py_exception + response" where
  "urlopen E m link =
     (case final (http_exchange E m link) of
        Inl err \<Rightarrow> Inl err
      | Inr answer \<Rightarrow>
          if 200 \<le> status answer \<and> status answer < 300 then Inr answer
          else Inl (Exc (HTTPError (status answer))
                      (''HTTP Error '' @ str_nat (status answer) @ '': '' @ reason answer)))"

text \<open>
  What the code does to the outside world, in the order it does it.  \<open>HttpRequest\<close> is
  the request that the code passes to \<open>urlopen\<close>; \<open>FollowRedirect\<close> is a further
  request that \<open>urlopen\<close> sends to a redirect target during the same call.
\<close>

datatype event =
    Validate string
  | Resolve string
  | HttpRequest http_method string
  | FollowRedirect string

fun network_event :: "event \<Rightarrow> bool" where
  "network_event (HttpRequest m url) = True"
| "network_event (FollowRedirect url) = True"
| "network_event (Validate url) = False"
| "network_event (Resolve host) = False"

definition urlopen_events :: "env \<Rightarrow> http_method \<Rightarrow> string \<Rightarrow> event list" where
  "urlopen_events E m link =
     HttpRequest m link # map FollowRedirect (redirects (http_exchange E m link))"

definition restricted :: "ip_info \<Rightarrow> bool" where
  "restricted ip = (is_private ip \<or> is_loopback ip \<or> is_link_local ip \<or> is_unspecified ip)"

text \<open>
  The body of the inner \<open>try\<close> for one address: \<open>ip_address\<close> may raise
  \<open>ValueError\<close>, a restricted address raises \<open>ValueError("Blocked restricted IP: ...")\<close>.
\<close>

definition check_ip :: "env \<Rightarrow> string \<Rightarrow> py_exception + unit" where
  "check_ip E ip_str =
     (case ip_address E ip_str of
        None \<Rightarrow> Inl (Exc ValueError (ip_str @ '' does not appear to be an IPv4 or IPv6 address''))
      | Some ip \<Rightarrow>
          if restricted ip then Inl (Exc ValueError (''Blocked restricted IP: '' @ ip_str))
          else Inr ())"

text \<open>
  The \<open>for addr_info in addr_infos\<close> loop with its \<open>except ValueError\<close> handler, which
  replaces either error by \<open>"Invalid or restricted IP address: ..."\<close>.  The accumulator is
  \<open>validated_ips\<close>.
\<close>

fun check_ips :: "env \<Rightarrow> string list \<Rightarrow> string list \<Rightarrow> py_exception + string list" where
  "check_ips E [] validated_ips = Inr validated_ips"
| "check_ips E (ip_str # rest) validated_ips =
     (case check_ip E ip_str of
        Inl err \<Rightarrow> Inl (Exc ValueError (''Invalid or restricted IP address: '' @ ip_str))
      | Inr u \<Rightarrow> check_ips E rest (validated_ips @ [ip_str]))"

text \<open>
  The outer \<open>try\<close> around resolution: \<open>gaierror\<close> becomes a \<open>ValueError\<close>, a
  \<open>ValueError\<close> is re-raised, any other exception propagates unchanged.
\<close>

definition resolve_and_check :: "env \<Rightarrow> string \<Rightarrow> string \<Rightarrow> py_exception + string" where
  "resolve_and_check E url host =
     (case getaddrinfo E host of
        Inl (Exc GaiError m) \<Rightarrow> Inl (Exc ValueError (''Could not resolve hostname: '' @ host))
      | Inl err \<Rightarrow> Inl err
      | Inr addr_infos \<Rightarrow>
          (case check_ips E addr_infos [] of
             Inl err \<Rightarrow> Inl err
           | Inr validated_ips \<Rightarrow>
               if validated_ips = []
               then Inl (Exc ValueError
                      (''Could not resolve any valid IP addresses for hostname: '' @ host))
               else Inr url))"

definition validate_unsafe_url :: "env \<Rightarrow> string \<Rightarrow> (py_exception + string) \<times> event list" where
  "validate_unsafe_url E url =
     (case urlparse E url of
        Inl err \<Rightarrow> (Inl (Exc ValueError ''Invalid URL format''), [Validate url])
      | Inr parsed \<Rightarrow>
          if scheme parsed \<notin> set [''http'', ''https'']
          then (Inl (Exc ValueError ''Invalid URL scheme. Only HTTP and HTTPS are allowed.''),
                [Validate url])
          else
            (case hostname parsed of
               None \<Rightarrow> (Inl (Exc ValueError ''Invalid URL: No hostname found.''), [Validate url])
             | Some host \<Rightarrow>
                 if host = []
                 then (Inl (Exc ValueError ''Invalid URL: No hostname found.''), [Validate url])
                 else (resolve_and_check E url host, [Validate url, Resolve host])))"

section \<open>app/services/gmail/unsubscribe.py: unsubscribe\_single\<close>

text \<open>The returned dict: the keys \<open>domain\<close> and \<open>type\<close> are present on some paths only.\<close>

record unsub_result =
  success :: bool
  message :: string
  domain :: "string option"
  type :: "string option"

definition failure :: "string \<Rightarrow> unsub_result" where
  "failure m = \<lparr>success = False, message = m, domain = None, type = None\<rparr>"

text \<open>
  The GET fallback.  Of the exceptions of \<open>urlopen\<close> its handler catches \<open>URLError\<close>,
  \<open>HTTPError\<close> and \<open>TimeoutError\<close>; any other one leaves the block.  The test of
  \<open>response.status\<close> is the one of the source, with its entries 301 and 302.
\<close>

definition get_fallback :: "env \<Rightarrow> string \<Rightarrow> string \<Rightarrow> (py_exception + unsub_result) \<times> event list" where
  "get_fallback E sender_domain link =
     (case request E link of
        Some err \<Rightarrow> (Inl err, [])
      | None \<Rightarrow>
     (case urlopen E GET link of
        Inr resp \<Rightarrow>
          if status resp \<in> set [200, 201, 202, 204, 301, 302]
          then (Inr \<lparr>success = True, message = ''Unsubscribed (confirmation may be needed)'',
                     domain = Some sender_domain, type = None\<rparr>, urlopen_events E GET link)
          else (Inr (failure (''Server returned status '' @ str_nat (status resp))),
                urlopen_events E GET link)
      | Inl (Exc URLError m) \<Rightarrow>
          (Inr (failure (''Failed to unsubscribe: '' @ m)), urlopen_events E GET link)
      | Inl (Exc (HTTPError code) m) \<Rightarrow>
          (Inr (failure (''Failed to unsubscribe: '' @ m)), urlopen_events E GET link)
      | Inl (Exc TimeoutError m) \<Rightarrow>
          (Inr (failure (''Failed to unsubscribe: '' @ m)), urlopen_events E GET link)
      | Inl err \<Rightarrow> (Inl err, urlopen_events E GET link)))"

text \<open>
  The POST attempt returns from the function on a success status only; a different
  status and every exception of \<open>urlopen\<close> (both handlers only log) fall through to
  the GET.  The \<open>Request\<close> objects are built outside the inner \<open>try\<close> blocks.
\<close>

definition post_then_get :: "env \<Rightarrow> string \<Rightarrow> string \<Rightarrow> (py_exception + unsub_result) \<times> event list" where
  "post_then_get E sender_domain link =
     (case request E link of
        Some err \<Rightarrow> (Inl err, [])
      | None \<Rightarrow>
     (case urlopen E POST link of
        Inr resp \<Rightarrow>
          if status resp \<in> set [200, 201, 202, 204]
          then (Inr \<lparr>success = True, message = ''Unsubscribed successfully'',
                     domain = Some sender_domain, type = None\<rparr>, urlopen_events E POST link)
          else (fst (get_fallback E sender_domain link),
                urlopen_events E POST link @ snd (get_fallback E sender_domain link))
      | Inl err \<Rightarrow>
          (fst (get_fallback E sender_domain link),
           urlopen_events E POST link @ snd (get_fallback E sender_domain link))))"

text \<open>The body of the outer \<open>try\<close>.\<close>

definition guarded_attempt :: "env \<Rightarrow> string \<Rightarrow> string \<Rightarrow> (py_exception + unsub_result) \<times> event list" where
  "guarded_attempt E sender_domain link =
     (case validate_unsafe_url E link of
        (Inl (Exc ValueError m), evs) \<Rightarrow> (Inr (failure (''Security Error: '' @ m)), evs)
      | (Inl err, evs) \<Rightarrow> (Inl err, evs)
      | (Inr link', evs) \<Rightarrow>
          (fst (post_then_get E sender_domain link'), evs @ snd (post_then_get E sender_domain link')))"

text \<open>
  The whole function.  The argument \<open>link\<close> is a string or \<open>None\<close>: \<open>not link\<close>
  holds for \<open>None\<close> and for the empty string.  \<open>except Exception as e\<close> turns
  whatever left the body into a result with the first 100 characters of \<open>str(e)\<close>.
\<close>

definition unsubscribe_single ::
  "env \<Rightarrow> string \<Rightarrow> string option \<Rightarrow> (py_exception + unsub_result) \<times> event list" where
  "unsubscribe_single E sender_domain link_arg =
     (case link_arg of
        None \<Rightarrow> (Inr (failure ''No unsubscribe link provided''), [])
      | Some link \<Rightarrow>
          if link = [] then (Inr (failure ''No unsubscribe link provided''), [])
          else if startswith link ''mailto:''
          then (Inr \<lparr>success = False,
                     message = ''Email-based unsubscribe - open in email client'',
                     domain = None, type = Some ''mailto''\<rparr>, [])
          else
            (case guarded_attempt E sender_domain link of
               (Inl err, evs) \<Rightarrow> (Inr (failure (take 100 (exc_text err))), evs)
             | (Inr res, evs) \<Rightarrow> (Inr res, evs)))"

section \<open>gmail\_api\_unsubscribe.py: unsubscribe\_single\<close>

record api_result =
  api_success :: bool
  api_status :: string

fun contains :: "string \<Rightarrow> string \<Rightarrow> bool" where
  "contains [] word = (word = [])"
| "contains (c # cs) word = (startswith (c # cs) word \<or> contains cs word)"

definition success_words :: "string list" where
  "success_words =
     [''unsubscribed'', ''removed'', ''success'', ''confirmed'', ''you have been'', ''opt out'']"

text \<open>
  This variant opens the link with a GET at once.  \<open>HTTPError\<close> is answered by its
  code, any other exception by the first 30 characters of its text.
\<close>

definition api_unsubscribe_single :: "env \<Rightarrow> string \<Rightarrow> string \<Rightarrow> (py_exception + api_result) \<times> event list" where
  "api_unsubscribe_single E sender_domain link =
     (case request E link of
        Some err \<Rightarrow> (Inr \<lparr>api_success = False, api_status = take 30 (exc_text err)\<rparr>, [])
      | None \<Rightarrow>
     (case urlopen E GET link of
        Inr resp \<Rightarrow>
          if list_ex (contains (lower (body resp))) success_words
          then (Inr \<lparr>api_success = True, api_status = ''Unsubscribed!''\<rparr>, urlopen_events E GET link)
          else (Inr \<lparr>api_success = True, api_status = ''Link visited''\<rparr>, urlopen_events E GET link)
      | Inl (Exc (HTTPError code) m) \<Rightarrow>
          if code \<in> set [301, 302, 303, 307, 308]
          then (Inr \<lparr>api_success = True, api_status = ''Redirected''\<rparr>, urlopen_events E GET link)
          else (Inr \<lparr>api_success = False, api_status = ''HTTP '' @ str_nat code\<rparr>,
                urlopen_events E GET link)
      | Inl err \<Rightarrow>
          (Inr \<lparr>api_success = False, api_status = take 30 (exc_text err)\<rparr>,
           urlopen_events E GET link)))"

section \<open>app/services/gmail/helpers.py: get\_unsubscribe\_from\_headers\<close>

record header =
  header_name :: string
  header_value :: string

text \<open>
  The two regular expressions \<open><(https?://[^>]+)>\<close> and \<open><(mailto:[^>]+)>\<close> have the
  shape \<open><\<close>, a fixed prefix, a longest non-empty run of characters other than \<open>>\<close>,
  and \<open>>\<close>.  \<open>match_angle p s\<close> is the group of a match that starts at the first
  character of \<open>s\<close>: the run cannot be shortened, since the character after a shorter run
  is not \<open>>\<close>.
\<close>

definition match_angle :: "string \<Rightarrow> string \<Rightarrow> string option" where
  "match_angle p s =
     (if startswith s (CHR ''<'' # p)
      then (let rest = drop (Suc (length p)) s;
                run = takeWhile (\<lambda>c. c \<noteq> CHR ''>'') rest
            in if run \<noteq> [] \<and> length run < length rest then Some (p @ run) else None)
      else None)"

definition match_http :: "string \<Rightarrow> string option" where
  "match_http s =
     (case match_angle ''https://'' s of
        Some u \<Rightarrow> Some u
      | None \<Rightarrow> match_angle ''http://'' s)"

definition match_mailto :: "string \<Rightarrow> string option" where
  "match_mailto s = match_angle ''mailto:'' s"

text \<open>
  \<open>re.findall\<close>: the groups of the matches from left to right, none overlapping.  The
  counter is the number of characters still covered by the last match, which spans
  \<open><\<close>, the group and \<open>>\<close>.
\<close>

fun findall :: "(string \<Rightarrow> string option) \<Rightarrow> nat \<Rightarrow> string \<Rightarrow> string list" where
  "findall m covered [] = []"
| "findall m (Suc k) (c # cs) = findall m k cs"
| "findall m 0 (c # cs) =
     (case m (c # cs) of
        Some g \<Rightarrow> g # findall m (Suc (length g)) cs
      | None \<Rightarrow> findall m 0 cs)"

text \<open>
  The inner loop \<open>for h in headers\<close>: it returns from the function at the first
  \<open>list-unsubscribe-post\<close> header if the value holds an HTTP(S) URL, and otherwise runs
  to its end.
\<close>

fun one_click_scan :: "header list \<Rightarrow> string \<Rightarrow> (string option \<times> string option) option" where
  "one_click_scan [] v = None"
| "one_click_scan (h # hs) v =
     (if lower (header_name h) = ''list-unsubscribe-post''
      then (case findall match_http 0 v of
              u # us \<Rightarrow> Some (Some u, Some ''one-click'')
            | [] \<Rightarrow> one_click_scan hs v)
      else one_click_scan hs v)"

text \<open>The outer loop over \<open>rest\<close>, the headers not yet visited; \<open>headers\<close> is the whole list.\<close>

fun unsubscribe_scan :: "header list \<Rightarrow> header list \<Rightarrow> string option \<times> string option" where
  "unsubscribe_scan headers [] = (None, None)"
| "unsubscribe_scan headers (h # rest) =
     (if lower (header_name h) = ''list-unsubscribe''
      then (case one_click_scan headers (header_value h) of
              Some found \<Rightarrow> found
            | None \<Rightarrow>
                (case findall match_http 0 (header_value h) of
                   u # us \<Rightarrow> (Some u, Some ''manual'')
                 | [] \<Rightarrow>
                     (case findall match_mailto 0 (header_value h) of
                        a # as \<Rightarrow> (Some a, Some ''manual'')
                      | [] \<Rightarrow> unsubscribe_scan headers rest)))
      else unsubscribe_scan headers rest)"

definition get_unsubscribe_from_headers :: "header list \<Rightarrow> string option \<times> string option" where
  "get_unsubscribe_from_headers headers = unsubscribe_scan headers headers"

section \<open>gmail\_api\_unsubscribe.py: the header functions\<close>

fun api_get_unsubscribe_from_headers :: "header list \<Rightarrow> string option" where
  "api_get_unsubscribe_from_headers [] = None"
| "api_get_unsubscribe_from_headers (h # rest) =
     (if lower (header_name h) = ''list-unsubscribe''
      then (case findall match_http 0 (header_value h) of
              u # us \<Rightarrow> Some u
            | [] \<Rightarrow>
                (case findall match_mailto 0 (header_value h) of
                   a # as \<Rightarrow> Some a
                 | [] \<Rightarrow> api_get_unsubscribe_from_headers rest))
      else api_get_unsubscribe_from_headers rest)"

text \<open>
  The pattern \<open>[\w.-]+@[\w.-]+\<close>, with \<open>\w\<close> on ASCII text: a longest run of such
  characters, \<open>@\<close>, and a longest run again; \<open>re.search\<close> takes the leftmost match.
\<close>

definition email_char :: "char \<Rightarrow> bool" where
  "email_char c =
     (c \<in> set ''abcdefghijklmnopqrstuvwxyzABCDEFGHIJKLMNOPQRSTUVWXYZ0123456789_.-'')"

definition match_email :: "string \<Rightarrow> string option" where
  "match_email s =
     (let local_part = takeWhile email_char s in
      if local_part = [] then None
      else (case dropWhile email_char s of
              [] \<Rightarrow> None
            | c # after \<Rightarrow>
                if c = CHR ''@'' \<and> takeWhile email_char after \<noteq> []
                then Some (local_part @ [CHR ''@''] @ takeWhile email_char after)
                else None))"

fun search_email :: "string \<Rightarrow> string option" where
  "search_email [] = None"
| "search_email (c # cs) =
     (case match_email (c # cs) of
        Some email \<Rightarrow> Some email
      | None \<Rightarrow> search_email cs)"

text \<open>\<open>email.split('@')[1]\<close>, for an email with an \<open>@\<close> in it.\<close>

definition second_field :: "string \<Rightarrow> string" where
  "second_field email =
     takeWhile (\<lambda>c. c \<noteq> CHR ''@'') (drop 1 (dropWhile (\<lambda>c. c \<noteq> CHR ''@'') email))"

fun api_get_sender_info :: "header list \<Rightarrow> string \<times> string" where
  "api_get_sender_info [] = ([], ''unknown'')"
| "api_get_sender_info (h # rest) =
     (if lower (header_name h) = ''from''
      then (case search_email (header_value h) of
              Some email \<Rightarrow> (header_value h, lower (second_field email))
            | None \<Rightarrow> api_get_sender_info rest)
      else api_get_sender_info rest)"

fun api_get_subject :: "header list \<Rightarrow> string" where
  "api_get_subject [] = []"
| "api_get_subject (h # rest) =
     (if lower (header_name h) = ''subject'' then take 60 (header_value h)
      else api_get_subject rest)"

section \<open>gmail\_api\_unsubscribe.py: scan\_emails\_api\<close>

text \<open>
  One entry of \<open>senders_data\<close>.  The Python \<open>set\<close> of links is kept as the list of its
  distinct members in the order they were added; in which order Python iterates over
  the set is a matter of the environment (\<open>set_order\<close> below).  The key \<open>from\<close> is the
  field \<open>sender_from\<close>.
\<close>

record bucket =
  count :: nat
  links :: "string list"
  subjects :: "string list"
  sender_from :: string

definition default_bucket :: bucket where
  "default_bucket = \<lparr>count = 0, links = [], subjects = [], sender_from = []\<rparr>"

definition set_add :: "string \<Rightarrow> string list \<Rightarrow> string list" where
  "set_add x xs = (if x \<in> set xs then xs else xs @ [x])"

text \<open>The four statements of \<open>process_message\<close> that update \<open>senders_data[domain]\<close>.\<close>

definition add_message :: "string \<Rightarrow> string \<Rightarrow> string \<Rightarrow> bucket \<Rightarrow> bucket" where
  "add_message unsub_link from_value subject b =
     b\<lparr>count := count b + 1,
       links := set_add unsub_link (links b),
       sender_from := from_value,
       subjects := (if length (subjects b) < 3 then subjects b @ [subject] else subjects b)\<rparr>"

text \<open>
  \<open>senders_data\<close> is a \<open>defaultdict\<close>: an association list in the order the keys were
  first used, which is the order \<open>items()\<close> gives.
\<close>

fun update_sender :: "string \<Rightarrow> (bucket \<Rightarrow> bucket) \<Rightarrow> (string \<times> bucket) list \<Rightarrow> (string \<times> bucket) list" where
  "update_sender d f [] = [(d, f default_bucket)]"
| "update_sender d f ((k, b) # rest) =
     (if k = d then (k, f b) # rest else (k, b) # update_sender d f rest)"

text \<open>
  What the batch delivers to the callback for one message: the headers of the response
  (\<open>response.get('payload', {}).get('headers', [])\<close>), or an exception.
\<close>

datatype fetched = Response "header list" | FetchError py_exception

record scan_acc =
  processed :: nat
  senders_data :: "(string \<times> bucket) list"

definition process_message :: "fetched \<Rightarrow> scan_acc \<Rightarrow> scan_acc" where
  "process_message msg acc =
     (let acc1 = acc\<lparr>processed := processed acc + 1\<rparr> in
      case msg of
        FetchError exception \<Rightarrow> acc1
      | Response headers \<Rightarrow>
          (case api_get_unsubscribe_from_headers headers of
             None \<Rightarrow> acc1
           | Some unsub_link \<Rightarrow>
               if unsub_link \<noteq> [] \<and> startswith unsub_link ''http''
               then acc1\<lparr>senders_data :=
                      update_sender (snd (api_get_sender_info headers))
                        (add_message unsub_link (fst (api_get_sender_info headers))
                           (api_get_subject headers))
                        (senders_data acc1)\<rparr>
               else acc1))"

fun run_callbacks :: "fetched list \<Rightarrow> scan_acc \<Rightarrow> scan_acc" where
  "run_callbacks [] acc = acc"
| "run_callbacks (msg # rest) acc = run_callbacks rest (process_message msg acc)"

text \<open>
  \<open>scan_status\<close> (keys \<open>progress\<close>, \<open>message\<close>, \<open>done\<close>, \<open>error\<close>) and one entry of
  \<open>scan_results\<close> (keys \<open>domain\<close>, \<open>count\<close>, \<open>from\<close>, \<open>link\<close>, \<open>subjects\<close>).  The state
  of a run is \<open>scan_results\<close> and every value assigned to \<open>scan_status\<close>, oldest first.
\<close>

record scan_status =
  progress :: nat
  status_message :: string
  is_done :: bool
  error :: "string option"

record opportunity =
  opp_domain :: string
  opp_count :: nat
  opp_from :: string
  opp_link :: string
  opp_subjects :: "string list"

record scan_state =
  scan_results :: "opportunity list"
  published :: "scan_status list"

definition publish :: "scan_status \<Rightarrow> scan_state \<Rightarrow> scan_state" where
  "publish s st = st\<lparr>published := published st @ [s]\<rparr>"

text \<open>
  The environment of a scan: what \<open>get_gmail_service()\<close> does (it raises, returns
  \<open>(None, error)\<close>, or returns a service), what listing the messages gives for
  \<open>maxResults = limit\<close> (each listed message stands for what fetching it delivers to the
  callback), the exception that \<open>batch.execute()\<close> raises for the batch that starts at
  a given index, if any, and the iteration order of a set of strings.
\<close>

record scan_env =
  get_gmail_service :: "py_exception + string option"
  list_messages :: "nat \<Rightarrow> py_exception + fetched list"
  batch_execute :: "nat \<Rightarrow> py_exception option"
  set_order :: "string list \<Rightarrow> string list"

text \<open>
  The progress after a batch is \<open>15 + int((batch_end / total) * 80)\<close>.  Python computes
  the quotient and the product in floating point; the model takes the exact value of
  \<open>floor(80 * batch_end / total)\<close>.
\<close>

definition batch_progress :: "nat \<Rightarrow> nat \<Rightarrow> nat" where
  "batch_progress batch_end total_count = 15 + (batch_end * 80) div total_count"

definition batch_status :: "nat \<Rightarrow> nat \<Rightarrow> scan_status" where
  "batch_status batch_end total_count =
     \<lparr>progress = batch_progress batch_end total_count,
      status_message =
        ''Batch fetched '' @ str_nat batch_end @ ''/'' @ str_nat total_count @ '' emails'',
      is_done = False, error = None\<rparr>"

text \<open>
  The loop \<open>for batch_start in range(0, total, batch_size)\<close>.  An exception of
  \<open>batch.execute()\<close> ends it; what was published so far stays published.
\<close>

function batch_loop ::
  "scan_env \<Rightarrow> fetched list \<Rightarrow> nat \<Rightarrow> scan_acc \<Rightarrow> scan_state \<Rightarrow> py_exception option \<times> scan_acc \<times> scan_state" where
  "batch_loop E messages batch_start acc st =
     (if batch_start < length messages
      then (let total_count = length messages;
                batch_end = min (batch_start + 100) total_count
            in case batch_execute E batch_start of
                 Some err \<Rightarrow> (Some err, acc, st)
               | None \<Rightarrow>
                   batch_loop E messages batch_end
                     (run_callbacks (take (batch_end - batch_start) (drop batch_start messages)) acc)
                     (publish (batch_status batch_end total_count) st))
      else (None, acc, st))"
  by pat_completeness auto
termination
  by (relation "measure (\<lambda>(E, messages, batch_start, acc, st). length messages - batch_start)") auto

text \<open>
  One entry of the result, or none: \<open>http_links[0]\<close> is the first link in the iteration
  order of the set that starts with \<open>http\<close>.
\<close>

definition emit :: "scan_env \<Rightarrow> string \<times> bucket \<Rightarrow> opportunity list" where
  "emit E entry =
     (case filter (\<lambda>l. startswith l ''http'') (set_order E (links (snd entry))) of
        [] \<Rightarrow> []
      | l # ls \<Rightarrow>
          [\<lparr>opp_domain = fst entry, opp_count = count (snd entry),
            opp_from = sender_from (snd entry), opp_link = l,
            opp_subjects = subjects (snd entry)\<rparr>])"

text \<open>
  \<open>sorted(..., key=count, reverse=True)\<close> is stable: entries with equal counts keep their
  order.  \<open>sort_key\<close> is stable and ascending, so the key is the negated count.
\<close>

definition sorted_senders :: "(string \<times> bucket) list \<Rightarrow> (string \<times> bucket) list" where
  "sorted_senders sd = sort_key (\<lambda>entry. - int (count (snd entry))) sd"

definition error_status :: "py_exception \<Rightarrow> scan_status" where
  "error_status err =
     (case err of
        Exc ApiHttpError m \<Rightarrow>
          \<lparr>progress = 0, status_message = ''Gmail API error: '' @ m, is_done = True, error = Some m\<rparr>
      | Exc c m \<Rightarrow>
          \<lparr>progress = 0, status_message = ''Error: '' @ m, is_done = True, error = Some m\<rparr>)"

text \<open>The body of the \<open>try\<close> of \<open>scan_emails_api\<close>, from the state after the first assignment.\<close>

definition scan_body :: "scan_env \<Rightarrow> nat \<Rightarrow> scan_state \<Rightarrow> py_exception option \<times> scan_state" where
  "scan_body E limit st0 =
     (case get_gmail_service E of
        Inl err \<Rightarrow> (Some err, st0)
      | Inr (Some problem) \<Rightarrow>
          (None, publish \<lparr>progress = 0, status_message = problem, is_done = True,
                          error = Some problem\<rparr> st0)
      | Inr None \<Rightarrow>
          (let st1 = publish \<lparr>progress = 10, status_message = ''Fetching email list...'',
                              is_done = False, error = None\<rparr> st0
           in case list_messages E limit of
                Inl err \<Rightarrow> (Some err, st1)
              | Inr messages \<Rightarrow>
                  if messages = []
                  then (None, publish \<lparr>progress = 100, status_message = ''No emails found'',
                                       is_done = True, error = None\<rparr> st1)
                  else
                    (let st2 = publish
                           \<lparr>progress = 15,
                            status_message = ''Found '' @ str_nat (length messages)
                                               @ '' emails, batch fetching...'',
                            is_done = False, error = None\<rparr> st1
                     in case batch_loop E messages 0
                               \<lparr>processed = 0, senders_data = []\<rparr> st2 of
                          (Some err, acc, st3) \<Rightarrow> (Some err, st3)
                        | (None, acc, st3) \<Rightarrow>
                            (let results = concat (map (emit E) (sorted_senders (senders_data acc)))
                             in (None,
                                 publish \<lparr>progress = 100,
                                          status_message = ''Done! Found ''
                                             @ str_nat (length results) @ '' senders'',
                                          is_done = True, error = None\<rparr>
                                   (st3\<lparr>scan_results := results\<rparr>))))))"

definition scan_emails_api :: "scan_env \<Rightarrow> nat \<Rightarrow> scan_state" where
  "scan_emails_api E limit =
     (let st0 = \<lparr>scan_results = [],
                 published = [\<lparr>progress = 5, status_message = ''Connecting to Gmail API...'',
                               is_done = False, error = None\<rparr>]\<rparr>
      in case scan_body E limit st0 of
           (None, st) \<Rightarrow> st
         | (Some err, st) \<Rightarrow> publish (error_status err) st)"

text \<open>
  What \<open>process_message\<close> takes from a message: the link that passes its test
  \<open>unsub_link and unsub_link.startswith('http')\<close>, if any, and the sender domain.
\<close>

definition http_link_of :: "fetched \<Rightarrow> string option" where
  "http_link_of msg =
     (case msg of
        FetchError exception \<Rightarrow> None
      | Response headers \<Rightarrow>
          (case api_get_unsubscribe_from_headers headers of
             None \<Rightarrow> None
           | Some unsub_link \<Rightarrow>
               if unsub_link \<noteq> [] \<and> startswith unsub_link ''http'' then Some unsub_link
               else None))"

definition sender_domain_of :: "fetched \<Rightarrow> string" where
  "sender_domain_of msg =
     (case msg of
        FetchError exception \<Rightarrow> []
      | Response headers \<Rightarrow> snd (api_get_sender_info headers))"

text \<open>
  Two invariants of \<open>senders_data\<close>: it holds one sender \<open>d\<close> with \<open>k\<close> counted messages and
  HTTP(S) links only; and every link it holds comes from a message of a given set with
  that sender domain.
\<close>

definition one_sender :: "string \<Rightarrow> nat \<Rightarrow> (string \<times> bucket) list \<Rightarrow> bool" where
  "one_sender d k sd =
     (if k = 0 then sd = []
      else (\<exists>b. sd = [(d, b)] \<and> count b = k \<and> links b \<noteq> []
                 \<and> list_all (\<lambda>l. startswith l ''http'') (links b)))"

definition links_from :: "fetched set \<Rightarrow> (string \<times> bucket) list \<Rightarrow> bool" where
  "links_from S sd =
     (\<forall>entry\<in>set sd. \<forall>l\<in>set (links (snd entry)).
        \<exists>m\<in>S. http_link_of m = Some l \<and> sender_domain_of m = fst entry)"

section \<open>A concrete environment\<close>

text \<open>
  A small world to evaluate the functions in: four hosts, of which one resolves to a
  public and a private address and one to the loopback address; a server that refuses
  the POST and answers the GET.
\<close>

definition demo_urls :: "(string \<times> parse_result) list" where
  "demo_urls =
     [(''https://shop.example/unsub?u=1'', \<lparr>scheme = ''https'', hostname = Some ''shop.example''\<rparr>),
      (''http://intranet.example/unsub'', \<lparr>scheme = ''http'', hostname = Some ''intranet.example''\<rparr>),
      (''http://localhost/admin'', \<lparr>scheme = ''http'', hostname = Some ''localhost''\<rparr>),
      (''ftp://files.example/list'', \<lparr>scheme = ''ftp'', hostname = Some ''files.example''\<rparr>),
      (''mailto:leave@shop.example'', \<lparr>scheme = ''mailto'', hostname = None\<rparr>)]"

definition demo_hosts :: "(string \<times> string list) list" where
  "demo_hosts =
     [(''shop.example'', [''93.184.216.34'', ''2606:2800:220:1::1'']),
      (''intranet.example'', [''93.184.216.34'', ''10.0.0.5'']),
      (''localhost'', [''127.0.0.1'']),
      (''files.example'', [''93.184.216.34''])]"

definition demo_ips :: "(string \<times> ip_info) list" where
  "demo_ips =
     [(''93.184.216.34'',
         \<lparr>is_private = False, is_loopback = False, is_link_local = False, is_unspecified = False\<rparr>),
      (''2606:2800:220:1::1'',
         \<lparr>is_private = False, is_loopback = False, is_link_local = False, is_unspecified = False\<rparr>),
      (''10.0.0.5'',
         \<lparr>is_private = True, is_loopback = False, is_link_local = False, is_unspecified = False\<rparr>),
      (''127.0.0.1'',
         \<lparr>is_private = True, is_loopback = True, is_link_local = False, is_unspecified = False\<rparr>)]"

definition demo_env :: env where
  "demo_env =
     \<lparr>urlparse = (\<lambda>url. case map_of demo_urls url of
                        Some p \<Rightarrow> Inr p
                      | None \<Rightarrow> Inr \<lparr>scheme = [], hostname = None\<rparr>),
      getaddrinfo = (\<lambda>host. case map_of demo_hosts host of
                        Some addrs \<Rightarrow> Inr addrs
                      | None \<Rightarrow> Inl (Exc GaiError ''[Errno -2] Name or service not known'')),
      ip_address = map_of demo_ips,
      request = (\<lambda>link. None),
      http_exchange = (\<lambda>m link. case m of
                        POST \<Rightarrow>
                          \<lparr>redirects = [],
                           final = Inr \<lparr>status = 405, reason = ''Method Not Allowed'', body = []\<rparr>\<rparr>
                      | GET \<Rightarrow>
                          \<lparr>redirects = [],
                           final = Inr \<lparr>status = 200, reason = ''OK'',
                                        body = ''You have been removed.''\<rparr>\<rparr>)\<rparr>"

text \<open>An address passes the loop body when it parses and none of the four properties holds.\<close>

definition address_ok :: "env \<Rightarrow> string \<Rightarrow> bool" where
  "address_ok E a = (case ip_address E a of None \<Rightarrow> False | Some ip \<Rightarrow> \<not> restricted ip)"

text \<open>
  The same world with other servers behind it: one whose last answer to the GET has a
  given status, one that answers the GET with a redirect to another page of its own,
  one that answers the POST with a redirect to a host of the local network, and one
  that closes the connection without an answer.
\<close>

definition demo_server :: "nat \<Rightarrow> string \<Rightarrow> env" where
  "demo_server get_status get_reason =
     demo_env\<lparr>http_exchange := (\<lambda>m link. case m of
                  POST \<Rightarrow>
                    \<lparr>redirects = [],
                     final = Inr \<lparr>status = 405, reason = ''Method Not Allowed'', body = []\<rparr>\<rparr>
                | GET \<Rightarrow>
                    \<lparr>redirects = [],
                     final = Inr \<lparr>status = get_status, reason = get_reason, body = []\<rparr>\<rparr>)\<rparr>"

definition demo_moved :: env where
  "demo_moved =
     demo_env\<lparr>http_exchange := (\<lambda>m link. case m of
                  POST \<Rightarrow>
                    \<lparr>redirects = [],
                     final = Inr \<lparr>status = 405, reason = ''Method Not Allowed'', body = []\<rparr>\<rparr>
                | GET \<Rightarrow>
                    \<lparr>redirects = [''https://shop.example/goodbye''],
                     final = Inr \<lparr>status = 200, reason = ''OK'', body = []\<rparr>\<rparr>)\<rparr>"

definition demo_redirect_inside :: env where
  "demo_redirect_inside =
     demo_env\<lparr>http_exchange := (\<lambda>m link.
                  \<lparr>redirects = [''http://localhost/admin''],
                   final = Inr \<lparr>status = 200, reason = ''OK'', body = []\<rparr>\<rparr>)\<rparr>"

definition demo_broken_client :: env where
  "demo_broken_client =
     demo_env\<lparr>http_exchange := (\<lambda>m link.
                  \<lparr>redirects = [],
                   final = Inl (Exc OtherException
                                  ''Remote end closed connection without response'')\<rparr>)\<rparr>"

text \<open>
  A header that ends the outer loop: a \<open>list-unsubscribe\<close> header whose value holds an
  HTTP(S) URL or a \<open>mailto:\<close> URI in angle brackets.
\<close>

definition carries_link :: "header \<Rightarrow> bool" where
  "carries_link h =
     (lower (header_name h) = ''list-unsubscribe''
      \<and> (findall match_http 0 (header_value h) \<noteq> []
           \<or> findall match_mailto 0 (header_value h) \<noteq> []))"

definition has_post_header :: "header list \<Rightarrow> bool" where
  "has_post_header headers =
     list_ex (\<lambda>h. lower (header_name h) = ''list-unsubscribe-post'') headers"

text \<open>Header lists to evaluate the extractors on.\<close>

definition demo_mailto_only :: "header list" where
  "demo_mailto_only =
     [\<lparr>header_name = ''From'', header_value = ''Shop News <news@shop.example>''\<rparr>,
      \<lparr>header_name = ''List-Unsubscribe'', header_value = ''<mailto:leave@shop.example>''\<rparr>,
      \<lparr>header_name = ''List-Unsubscribe-Post'', header_value = ''List-Unsubscribe=One-Click''\<rparr>]"

definition demo_one_click :: "header list" where
  "demo_one_click =
     [\<lparr>header_name = ''From'', header_value = ''Shop News <news@shop.example>''\<rparr>,
      \<lparr>header_name = ''List-Unsubscribe'', header_value = ''(no link here)''\<rparr>,
      \<lparr>header_name = ''LIST-UNSUBSCRIBE'',
       header_value = ''<mailto:leave@shop.example>, <https://shop.example/unsub?u=1>''\<rparr>,
      \<lparr>header_name = ''List-Unsubscribe-Post'', header_value = ''List-Unsubscribe=One-Click''\<rparr>]"

text \<open>Inboxes and mail services to evaluate the scan on.\<close>

definition demo_message :: "string \<Rightarrow> string \<Rightarrow> fetched" where
  "demo_message sender unsubscribe =
     Response [\<lparr>header_name = ''From'', header_value = sender\<rparr>,
               \<lparr>header_name = ''Subject'', header_value = ''Weekly offers''\<rparr>,
               \<lparr>header_name = ''List-Unsubscribe'', header_value = unsubscribe\<rparr>]"

definition demo_inbox :: "fetched list" where
  "demo_inbox =
     [demo_message ''Shop News <news@shop.example>'' ''<https://shop.example/unsub?u=1>'',
      demo_message ''Shop News <news@shop.example>'' ''<mailto:leave@shop.example>'',
      FetchError (Exc ApiHttpError ''404 Not Found''),
      demo_message ''Shop <deals@Shop.Example>'' ''<https://shop.example/unsub?u=2>'']"

definition demo_scan :: "fetched list \<Rightarrow> scan_env" where
  "demo_scan inbox =
     \<lparr>get_gmail_service = Inr None,
      list_messages = (\<lambda>limit. Inr (take limit inbox)),
      batch_execute = (\<lambda>batch_start. None),
      set_order = (\<lambda>xs. xs)\<rparr>"



definition demo_mailto_inbox :: "fetched list" where
  "demo_mailto_inbox =
     [demo_message ''Shop News <news@shop.example>'' ''<mailto:leave@shop.example>'']"

definition demo_two_senders :: "fetched list" where
  "demo_two_senders =
     [demo_message ''Daily <daily@news.example>'' ''<https://news.example/off?id=7>'',
      demo_message ''Shop News <news@shop.example>'' ''<https://shop.example/unsub?u=1>'',
      demo_message ''Shop <deals@shop.example>'' ''<https://shop.example/unsub?u=1>'',
      demo_message ''Daily <daily@news.example>'' ''<https://news.example/off?id=8>'']"

definition demo_scan_reversed :: "fetched list \<Rightarrow> scan_env" where
  "demo_scan_reversed inbox = (demo_scan inbox)\<lparr>set_order := rev\<rparr>"

definition demo_shop_entry :: opportunity where
  "demo_shop_entry =
     \<lparr>opp_domain = ''shop.example'', opp_count = 2, opp_from = ''Shop <deals@shop.example>'',
      opp_link = ''https://shop.example/unsub?u=1'',
      opp_subjects = [''Weekly offers'', ''Weekly offers'']\<rparr>"


section \<open>Unfolding rules\<close>

text \<open>The two recursive equations that are not structural are unfolded by hand only.\<close>

declare str_nat.simps [simp del]

declare batch_loop.simps [simp del]

lemmas demo_defs = demo_env_def demo_urls_def demo_hosts_def demo_ips_def demo_server_def
  demo_moved_def demo_redirect_inside_def demo_broken_client_def

lemmas unsub_defs = unsubscribe_single_def guarded_attempt_def post_then_get_def
  get_fallback_def validate_unsafe_url_def resolve_and_check_def check_ip_def restricted_def
  failure_def startswith_def urlopen_def urlopen_events_def

section \<open>Properties of validate\_unsafe\_url\<close>

lemma check_ip_ok: "check_ip E a = Inr () \<longleftrightarrow> address_ok E a"
  by (simp add: check_ip_def address_ok_def split: option.splits)

lemma check_ip_cases: "(\<exists>e. check_ip E a = Inl e) \<or> check_ip E a = Inr ()"
  by (cases "check_ip E a") auto

lemma check_ips_all_ok:
  "\<forall>a\<in>set addrs. address_ok E a \<Longrightarrow> check_ips E addrs acc = Inr (acc @ addrs)"
proof (induction addrs arbitrary: acc)
  case Nil
  then show ?case by simp
next
  case (Cons a addrs)
  then have "check_ip E a = Inr ()" by (simp add: check_ip_ok)
  with Cons show ?case by simp
qed

lemma check_ips_first_bad:
  "\<forall>a\<in>set pre. address_ok E a \<Longrightarrow> \<not> address_ok E bad \<Longrightarrow>
   check_ips E (pre @ bad # post) acc =
     Inl (Exc ValueError (''Invalid or restricted IP address: '' @ bad))"
proof (induction pre arbitrary: acc)
  case Nil
  then have "check_ip E bad \<noteq> Inr ()" by (simp add: check_ip_ok)
  then obtain e where "check_ip E bad = Inl e" using check_ip_cases by blast
  then show ?case by simp
next
  case (Cons a pre)
  then have "check_ip E a = Inr ()" by (simp add: check_ip_ok)
  with Cons show ?case by simp
qed

lemma first_bad_split:
  "\<exists>a\<in>set addrs. \<not> P a \<Longrightarrow>
   \<exists>pre bad post. addrs = pre @ bad # post \<and> (\<forall>a\<in>set pre. P a) \<and> \<not> P bad"
proof (induction addrs)
  case Nil
  then show ?case by simp
next
  case (Cons a addrs)
  show ?case
  proof (cases "P a")
    case False
    then have "a # addrs = [] @ a # addrs \<and> (\<forall>x\<in>set []. P x) \<and> \<not> P a" by simp
    then show ?thesis by blast
  next
    case True
    with Cons.prems have "\<exists>x\<in>set addrs. \<not> P x" by auto
    from Cons.IH[OF this] obtain pre bad post where
      "addrs = pre @ bad # post" "\<forall>x\<in>set pre. P x" "\<not> P bad" by blast
    with True have "a # addrs = (a # pre) @ bad # post \<and> (\<forall>x\<in>set (a # pre). P x) \<and> \<not> P bad"
      by simp
    then show ?thesis by blast
  qed
qed

lemma validate_resolved:
  "urlparse E url = Inr parsed \<Longrightarrow> scheme parsed \<in> set [''http'', ''https''] \<Longrightarrow>
   hostname parsed = Some host \<Longrightarrow> host \<noteq> [] \<Longrightarrow> getaddrinfo E host = Inr addrs \<Longrightarrow>
   fst (validate_unsafe_url E url) =
     (case check_ips E addrs [] of
        Inl err \<Rightarrow> Inl err
      | Inr validated_ips \<Rightarrow>
          if validated_ips = []
          then Inl (Exc ValueError
                 (''Could not resolve any valid IP addresses for hostname: '' @ host))
          else Inr url)"
  by (simp add: validate_unsafe_url_def resolve_and_check_def)

text \<open>
  Claim C1.  Let the URL parse with scheme \<open>http\<close> or \<open>https\<close> and a hostname, and
  let the hostname resolve to the addresses \<open>addrs\<close>.  Validation returns the URL
  exactly when \<open>addrs\<close> is not empty and every one of its addresses passes; it never
  returns anything but the URL.  As soon as one address does not pass (it is private,
  loopback, link-local or unspecified, or \<open>ip_address\<close> refuses it), whatever the others
  are, validation fails with \<open>ValueError("Invalid or restricted IP address: <bad>")\<close>,
  where \<open>bad\<close> is the first address in resolution order that does not pass.
\<close>

theorem validate_rejects_any_unsafe_address:
  assumes "urlparse E url = Inr parsed"
    and "scheme parsed \<in> set [''http'', ''https'']"
    and "hostname parsed = Some host" and "host \<noteq> []"
    and "getaddrinfo E host = Inr addrs"
  shows "(fst (validate_unsafe_url E url) = Inr url \<longleftrightarrow>
            addrs \<noteq> [] \<and> (\<forall>a\<in>set addrs. address_ok E a))
       \<and> (\<forall>res. fst (validate_unsafe_url E url) = Inr res \<longrightarrow> res = url)
       \<and> ((\<exists>a\<in>set addrs. \<not> address_ok E a) \<longrightarrow>
            (\<exists>pre bad post. addrs = pre @ bad # post \<and> (\<forall>a\<in>set pre. address_ok E a)
               \<and> \<not> address_ok E bad
               \<and> fst (validate_unsafe_url E url) =
                   Inl (Exc ValueError (''Invalid or restricted IP address: '' @ bad))))"
proof -
  note v = validate_resolved[OF assms]
  have bad: "\<exists>pre bad post. addrs = pre @ bad # post \<and> (\<forall>a\<in>set pre. address_ok E a)
               \<and> \<not> address_ok E bad
               \<and> fst (validate_unsafe_url E url) =
                   Inl (Exc ValueError (''Invalid or restricted IP address: '' @ bad))"
    if "\<exists>a\<in>set addrs. \<not> address_ok E a"
  proof -
    from first_bad_split[OF that] obtain pre bad post where
      s: "addrs = pre @ bad # post" "\<forall>a\<in>set pre. address_ok E a" "\<not> address_ok E bad"
      by blast
    have "check_ips E addrs [] =
            Inl (Exc ValueError (''Invalid or restricted IP address: '' @ bad))"
      unfolding s(1) by (rule check_ips_first_bad[OF s(2) s(3)])
    with v s show ?thesis by auto
  qed
  have ok: "fst (validate_unsafe_url E url) = (if addrs = [] then
       Inl (Exc ValueError (''Could not resolve any valid IP addresses for hostname: '' @ host))
       else Inr url)"
    if "\<forall>a\<in>set addrs. address_ok E a"
    using v check_ips_all_ok[OF that, of "[]"] by simp
  have iff: "fst (validate_unsafe_url E url) = Inr url \<longleftrightarrow>
            addrs \<noteq> [] \<and> (\<forall>a\<in>set addrs. address_ok E a)"
  proof (cases "\<forall>a\<in>set addrs. address_ok E a")
    case True
    then show ?thesis using ok by simp
  next
    case False
    then have "\<exists>a\<in>set addrs. \<not> address_ok E a" by simp
    from bad[OF this] False show ?thesis by auto
  qed
  have same: "\<forall>res. fst (validate_unsafe_url E url) = Inr res \<longrightarrow> res = url"
    using v by (auto split: sum.splits if_splits)
  from iff same bad show ?thesis by blast
qed

theorem validate_rejects_any_unsafe_address_witness:
  "urlparse demo_env ''http://intranet.example/unsub''
      = Inr \<lparr>scheme = ''http'', hostname = Some ''intranet.example''\<rparr>
   \<and> getaddrinfo demo_env ''intranet.example'' = Inr [''93.184.216.34'', ''10.0.0.5'']
   \<and> address_ok demo_env ''93.184.216.34'' \<and> \<not> address_ok demo_env ''10.0.0.5''
   \<and> fst (validate_unsafe_url demo_env ''http://intranet.example/unsub'') \<noteq>
        Inr ''http://intranet.example/unsub''
   \<and> fst (validate_unsafe_url demo_env ''http://intranet.example/unsub'') =
        Inl (Exc ValueError ''Invalid or restricted IP address: 10.0.0.5'')"
  using validate_rejects_any_unsafe_address
    [of demo_env "''http://intranet.example/unsub''"
        "\<lparr>scheme = ''http'', hostname = Some ''intranet.example''\<rparr>"
        "''intranet.example''" "[''93.184.216.34'', ''10.0.0.5'']"]
  by (simp add: demo_env_def demo_urls_def demo_hosts_def demo_ips_def address_ok_def
      restricted_def validate_unsafe_url_def resolve_and_check_def check_ip_def)

text \<open>
  Claim C4.  A URL whose parsed scheme is neither \<open>http\<close> nor \<open>https\<close> fails with
  \<open>ValueError("Invalid URL scheme. Only HTTP and HTTPS are allowed.")\<close>.  The only thing
  the function has done by then is to start validating: the hostname is never
  resolved, and the outcome is the same under every resolver.
\<close>

theorem disallowed_scheme_rejected_before_resolution:
  assumes "urlparse E url = Inr parsed"
    and "scheme parsed \<noteq> ''http''" and "scheme parsed \<noteq> ''https''"
  shows "validate_unsafe_url E url =
           (Inl (Exc ValueError ''Invalid URL scheme. Only HTTP and HTTPS are allowed.''),
            [Validate url])
       \<and> validate_unsafe_url (E\<lparr>getaddrinfo := resolver\<rparr>) url = validate_unsafe_url E url
       \<and> Resolve host \<notin> set (snd (validate_unsafe_url E url))"
  using assms by (simp add: validate_unsafe_url_def)

theorem disallowed_scheme_rejected_before_resolution_witness:
  "urlparse demo_env ''ftp://files.example/list''
      = Inr \<lparr>scheme = ''ftp'', hostname = Some ''files.example''\<rparr>
   \<and> getaddrinfo demo_env ''files.example'' = Inr [''93.184.216.34'']
   \<and> validate_unsafe_url demo_env ''ftp://files.example/list'' =
       (Inl (Exc ValueError ''Invalid URL scheme. Only HTTP and HTTPS are allowed.''),
        [Validate ''ftp://files.example/list''])"
  using disallowed_scheme_rejected_before_resolution
    [of demo_env "''ftp://files.example/list''"
        "\<lparr>scheme = ''ftp'', hostname = Some ''files.example''\<rparr>"]
  by (simp add: demo_env_def demo_urls_def demo_hosts_def)

section \<open>Properties of unsubscribe\_single\<close>

lemma http_request_in_urlopen_events:
  "HttpRequest m u \<in> set (urlopen_events E m' link) \<longleftrightarrow> m = m' \<and> u = link"
  by (auto simp: urlopen_events_def)

lemma get_fallback_events:
  "ev \<in> set (snd (get_fallback E d link)) \<Longrightarrow> ev \<in> set (urlopen_events E GET link)"
  by (auto simp: get_fallback_def split: option.splits sum.splits py_exception.splits
      exc_class.splits if_splits)

lemma post_then_get_events:
  "ev \<in> set (snd (post_then_get E d link)) \<Longrightarrow>
   ev \<in> set (urlopen_events E POST link) \<or> ev \<in> set (urlopen_events E GET link)"
  by (auto simp: post_then_get_def split: option.splits sum.splits if_splits
      dest: get_fallback_events)

lemma validate_events:
  "ev \<in> set (snd (validate_unsafe_url E link)) \<Longrightarrow> \<not> network_event ev"
  by (auto simp: validate_unsafe_url_def split: option.splits sum.splits if_splits)

lemma validate_returns_url:
  "fst (validate_unsafe_url E link) = Inr res \<Longrightarrow> res = link"
  by (auto simp: validate_unsafe_url_def resolve_and_check_def
      split: option.splits sum.splits if_splits py_exception.splits exc_class.splits)

lemma guarded_attempt_rejected:
  "fst (validate_unsafe_url E link) = Inl (Exc c why) \<Longrightarrow>
   guarded_attempt E d link =
     (if c = ValueError then Inr (failure (''Security Error: '' @ why)) else Inl (Exc c why),
      snd (validate_unsafe_url E link))"
  by (cases "validate_unsafe_url E link"; cases c) (simp_all add: guarded_attempt_def)

lemma guarded_attempt_accepted:
  "fst (validate_unsafe_url E link) = Inr res \<Longrightarrow>
   guarded_attempt E d link =
     (fst (post_then_get E d link), snd (validate_unsafe_url E link) @ snd (post_then_get E d link))"
  using validate_returns_url[of E link res]
  by (cases "validate_unsafe_url E link") (simp add: guarded_attempt_def)

lemma unsubscribe_single_events:
  "snd (unsubscribe_single E d (Some link)) =
     (if link = [] \<or> startswith link ''mailto:'' then [] else snd (guarded_attempt E d link))"
  by (simp add: unsubscribe_single_def split: prod.splits sum.splits)

lemma guarded_attempt_network_only_if_accepted:
  assumes "ev \<in> set (snd (guarded_attempt E d link))" and "network_event ev"
  shows "fst (validate_unsafe_url E link) = Inr link
         \<and> (ev \<in> set (urlopen_events E POST link) \<or> ev \<in> set (urlopen_events E GET link))"
proof (cases "fst (validate_unsafe_url E link)")
  case (Inl e)
  obtain c why where "e = Exc c why" by (cases e)
  with Inl assms guarded_attempt_rejected[of E link c why d] validate_events[of ev E link]
  show ?thesis by simp
next
  case (Inr res)
  then have r: "res = link" by (rule validate_returns_url)
  from Inr assms guarded_attempt_accepted[of E link res d] validate_events[of ev E link]
  have "ev \<in> set (snd (post_then_get E d link))" by auto
  from post_then_get_events[OF this] Inr r show ?thesis by simp
qed

lemma unsubscribe_single_network_only_if_accepted:
  assumes "ev \<in> set (snd (unsubscribe_single E d link_arg))" and "network_event ev"
  shows "\<exists>link. link_arg = Some link \<and> fst (validate_unsafe_url E link) = Inr link
           \<and> (ev \<in> set (urlopen_events E POST link) \<or> ev \<in> set (urlopen_events E GET link))"
proof (cases link_arg)
  case None
  with assms(1) show ?thesis by (simp add: unsubscribe_single_def)
next
  case (Some l)
  with assms(1) have "ev \<in> set (snd (guarded_attempt E d l))"
    by (simp add: unsubscribe_single_events split: if_splits)
  from guarded_attempt_network_only_if_accepted[OF this assms(2)] Some show ?thesis by simp
qed

text \<open>
  Claim C2, as amended.  In \<open>app/services/gmail/unsubscribe.py\<close>, each request that
  \<open>unsubscribe_single\<close> passes to \<open>urlopen\<close> is for the link it was given, and is made
  only when \<open>validate_unsafe_url\<close> has accepted that link; no network request of any
  kind, a followed redirect included, happens unless the validator has accepted the
  given link.  For a link that is not empty and does not start with \<open>mailto:\<close>, a
  \<open>ValueError\<close> of the validator gives the result
  \<open>{success: False, message: "Security Error: " + reason}\<close>, the only effects are those
  of the validator itself, and no network request is among them.  Where a redirect
  that \<open>urlopen\<close> follows leads to is not part of the statement.
\<close>

theorem request_only_after_validation:
  "(HttpRequest m u \<in> set (snd (unsubscribe_single E d link_arg)) \<longrightarrow>
      link_arg = Some u \<and> fst (validate_unsafe_url E u) = Inr u)
   \<and> (list_ex network_event (snd (unsubscribe_single E d link_arg)) \<longrightarrow>
      (\<exists>given. link_arg = Some given \<and> fst (validate_unsafe_url E given) = Inr given))
   \<and> (link \<noteq> [] \<and> \<not> startswith link ''mailto:''
        \<and> fst (validate_unsafe_url E link) = Inl (Exc ValueError why) \<longrightarrow>
      unsubscribe_single E d (Some link) =
        (Inr \<lparr>success = False, message = ''Security Error: '' @ why,
              domain = None, type = None\<rparr>,
         snd (validate_unsafe_url E link))
      \<and> \<not> list_ex network_event (snd (unsubscribe_single E d (Some link))))"
proof -
  have a: "link_arg = Some u \<and> fst (validate_unsafe_url E u) = Inr u"
    if h: "HttpRequest m u \<in> set (snd (unsubscribe_single E d link_arg))"
  proof -
    have "network_event (HttpRequest m u)" by simp
    from unsubscribe_single_network_only_if_accepted[OF h this] obtain given where
      g: "link_arg = Some given" "fst (validate_unsafe_url E given) = Inr given"
         "HttpRequest m u \<in> set (urlopen_events E POST given)
          \<or> HttpRequest m u \<in> set (urlopen_events E GET given)"
      by blast
    from g(3) have "u = given" by (auto simp: http_request_in_urlopen_events)
    with g show ?thesis by simp
  qed
  have b: "\<exists>given. link_arg = Some given \<and> fst (validate_unsafe_url E given) = Inr given"
    if "list_ex network_event (snd (unsubscribe_single E d link_arg))"
  proof -
    from that obtain ev where "ev \<in> set (snd (unsubscribe_single E d link_arg))"
      "network_event ev" by (auto simp: list_ex_iff)
    from unsubscribe_single_network_only_if_accepted[OF this] show ?thesis by blast
  qed
  have c: "unsubscribe_single E d (Some link) =
        (Inr \<lparr>success = False, message = ''Security Error: '' @ why,
              domain = None, type = None\<rparr>,
         snd (validate_unsafe_url E link))
      \<and> \<not> list_ex network_event (snd (unsubscribe_single E d (Some link)))"
    if r: "link \<noteq> []" "\<not> startswith link ''mailto:''"
       "fst (validate_unsafe_url E link) = Inl (Exc ValueError why)"
  proof -
    have res: "unsubscribe_single E d (Some link) =
        (Inr \<lparr>success = False, message = ''Security Error: '' @ why,
              domain = None, type = None\<rparr>,
         snd (validate_unsafe_url E link))"
      using r guarded_attempt_rejected[OF r(3), of d]
      by (simp add: unsubscribe_single_def failure_def)
    have "\<not> list_ex network_event (snd (validate_unsafe_url E link))"
      using validate_events[of _ E link] by (auto simp: list_ex_iff)
    with res show ?thesis by simp
  qed
  from a b c show ?thesis by blast
qed

text \<open>
  Claim C5.  Whatever the domain, the link (absent, empty, \<open>mailto:\<close> or any other
  string) and the environment do (the parser, the resolver, the \<open>Request\<close> constructor
  and both HTTP exchanges may return or raise anything), \<open>unsubscribe_single\<close> returns
  a result and raises nothing.
\<close>

theorem unsubscribe_single_never_raises:
  "\<exists>res. fst (unsubscribe_single E d link_arg) = Inr res"
  by (simp add: unsubscribe_single_def split: option.splits prod.splits sum.splits)

text \<open>
  Claim C10.  For the empty string \<open>unsubscribe_single\<close> returns
  \<open>{success: False, message: "No unsubscribe link provided"}\<close> with no effect at all:
  the validator is not called and no request is made.  This is what it returns for an
  absent link (\<open>None\<close>).
\<close>

theorem empty_link_is_no_link:
  "unsubscribe_single E d (Some []) =
     (Inr \<lparr>success = False, message = ''No unsubscribe link provided'',
           domain = None, type = None\<rparr>, [])
   \<and> unsubscribe_single E d (Some []) = unsubscribe_single E d None"
  by (simp add: unsubscribe_single_def failure_def)

theorem request_only_after_validation_witness:
  "fst (validate_unsafe_url demo_env ''http://localhost/admin'') =
     Inl (Exc ValueError ''Invalid or restricted IP address: 127.0.0.1'')
   \<and> unsubscribe_single demo_env ''shop.example'' (Some ''http://localhost/admin'') =
       (Inr \<lparr>success = False,
             message = ''Security Error: Invalid or restricted IP address: 127.0.0.1'',
             domain = None, type = None\<rparr>,
        [Validate ''http://localhost/admin'', Resolve ''localhost''])
   \<and> snd (unsubscribe_single demo_env ''shop.example''
             (Some ''https://shop.example/unsub?u=1'')) =
       [Validate ''https://shop.example/unsub?u=1'', Resolve ''shop.example'',
        HttpRequest POST ''https://shop.example/unsub?u=1'',
        HttpRequest GET ''https://shop.example/unsub?u=1'']
   \<and> fst (validate_unsafe_url demo_env ''https://shop.example/unsub?u=1'') =
       Inr ''https://shop.example/unsub?u=1''"
  using request_only_after_validation
    [of GET "''https://shop.example/unsub?u=1''" demo_env "''shop.example''"
        "Some ''https://shop.example/unsub?u=1''" "''http://localhost/admin''"
        "''Invalid or restricted IP address: 127.0.0.1''"]
  by (simp add: demo_defs unsub_defs)

text \<open>
  Claim C2 as stated fails twice.  The validator rejects \<open>http://localhost/admin\<close>,
  which resolves to the loopback address, but the \<open>unsubscribe_single\<close> of
  \<open>gmail_api_unsubscribe.py\<close> calls no validator and requests it.  And in
  \<open>app/services/gmail/unsubscribe.py\<close> the validator accepts the link of the shop, the
  shop answers the POST with a redirect to \<open>http://localhost/admin\<close>, and \<open>urlopen\<close>
  requests that address, which no validator has seen.
\<close>

theorem validator_bypassed_counterexample:
  "fst (validate_unsafe_url demo_env ''http://localhost/admin'') =
     Inl (Exc ValueError ''Invalid or restricted IP address: 127.0.0.1'')
   \<and> api_unsubscribe_single demo_env ''shop.example'' ''http://localhost/admin'' =
       (Inr \<lparr>api_success = True, api_status = ''Unsubscribed!''\<rparr>,
        [HttpRequest GET ''http://localhost/admin''])
   \<and> fst (validate_unsafe_url demo_redirect_inside ''http://localhost/admin'') =
       Inl (Exc ValueError ''Invalid or restricted IP address: 127.0.0.1'')
   \<and> unsubscribe_single demo_redirect_inside ''shop.example''
         (Some ''https://shop.example/unsub?u=1'') =
       (Inr \<lparr>success = True, message = ''Unsubscribed successfully'',
             domain = Some ''shop.example'', type = None\<rparr>,
        [Validate ''https://shop.example/unsub?u=1'', Resolve ''shop.example'',
         HttpRequest POST ''https://shop.example/unsub?u=1'',
         FollowRedirect ''http://localhost/admin''])"
  by (simp add: demo_defs unsub_defs api_unsubscribe_single_def success_words_def lower_def
      lower_char_def)

theorem unsubscribe_single_never_raises_witness:
  "fst (unsubscribe_single demo_broken_client ''shop.example''
          (Some ''https://shop.example/unsub?u=1'')) =
     Inr \<lparr>success = False, message = ''Remote end closed connection without response'',
          domain = None, type = None\<rparr>"
  using unsubscribe_single_never_raises
    [of demo_broken_client "''shop.example''" "Some ''https://shop.example/unsub?u=1''"]
  by (simp add: demo_defs unsub_defs)

theorem empty_link_is_no_link_witness:
  "unsubscribe_single demo_env ''shop.example'' (Some []) =
     (Inr \<lparr>success = False, message = ''No unsubscribe link provided'',
           domain = None, type = None\<rparr>, [])"
  using empty_link_is_no_link [of demo_env "''shop.example''"]
  by simp

text \<open>
  Claim C6, as amended.  Let the validator accept the link and the POST not end in a
  success status, so that the GET fallback runs, and let the exchange of the GET end
  with an answer of a server whose status is neither 301 nor 302.  If that status is
  200, 201, 202 or 204, the result is
  \<open>{success: True, message: "Unsubscribed (confirmation may be needed)", domain}\<close>,
  whether or not redirects were followed on the way.  Any other status in 200..299
  gives \<open>{success: False, message: "Server returned status <code>"}\<close>.  A status
  outside 200..299 reaches the code as \<open>HTTPError\<close> and gives
  \<open>{success: False, message: "Failed to unsubscribe: HTTP Error <code>: <reason>"}\<close>.
\<close>

theorem get_fallback_status_classes:
  assumes "link \<noteq> []" and "\<not> startswith link ''mailto:''"
    and "fst (validate_unsafe_url E link) = Inr link"
    and "request E link = None"
    and "\<forall>r. urlopen E POST link = Inr r \<longrightarrow> status r \<notin> set [200, 201, 202, 204]"
    and "final (http_exchange E GET link) = Inr answer"
    and "status answer \<notin> set [301, 302]"
  shows "fst (unsubscribe_single E d (Some link)) =
           Inr (if status answer \<in> set [200, 201, 202, 204]
                then \<lparr>success = True, message = ''Unsubscribed (confirmation may be needed)'',
                      domain = Some d, type = None\<rparr>
                else if 200 \<le> status answer \<and> status answer < 300
                then \<lparr>success = False,
                      message = ''Server returned status '' @ str_nat (status answer),
                      domain = None, type = None\<rparr>
                else \<lparr>success = False,
                      message = ''Failed to unsubscribe: HTTP Error ''
                                  @ str_nat (status answer) @ '': '' @ reason answer,
                      domain = None, type = None\<rparr>)"
    (is "_ = Inr ?res")
proof -
  have g: "fst (get_fallback E d link) = Inr ?res"
  proof (cases "200 \<le> status answer \<and> status answer < 300")
    case True
    then have "urlopen E GET link = Inr answer" using assms(6) by (simp add: urlopen_def)
    with assms(4,7) True show ?thesis by (auto simp: get_fallback_def failure_def)
  next
    case False
    then have "urlopen E GET link =
        Inl (Exc (HTTPError (status answer))
               (''HTTP Error '' @ str_nat (status answer) @ '': '' @ reason answer))"
      using assms(6) by (simp add: urlopen_def)
    with assms(4) False show ?thesis by (auto simp: get_fallback_def failure_def)
  qed
  have p: "fst (post_then_get E d link) = fst (get_fallback E d link)"
    using assms(4,5) by (cases "urlopen E POST link") (simp_all add: post_then_get_def)
  have "fst (guarded_attempt E d link) = fst (post_then_get E d link)"
    using guarded_attempt_accepted[OF assms(3), of d] by simp
  with p g have "fst (guarded_attempt E d link) = Inr ?res" by simp
  with assms(1,2) show ?thesis
    by (cases "guarded_attempt E d link") (simp add: unsubscribe_single_def)
qed

theorem get_fallback_status_classes_witness:
  "fst (validate_unsafe_url (demo_server 404 ''Not Found'') ''https://shop.example/unsub?u=1'') =
     Inr ''https://shop.example/unsub?u=1''
   \<and> urlopen (demo_server 404 ''Not Found'') POST ''https://shop.example/unsub?u=1'' =
       Inl (Exc (HTTPError 405) ''HTTP Error 405: Method Not Allowed'')
   \<and> final (http_exchange (demo_server 404 ''Not Found'') GET ''https://shop.example/unsub?u=1'') =
       Inr \<lparr>status = 404, reason = ''Not Found'', body = []\<rparr>
   \<and> fst (unsubscribe_single (demo_server 404 ''Not Found'') ''shop.example''
            (Some ''https://shop.example/unsub?u=1'')) =
       Inr \<lparr>success = False, message = ''Failed to unsubscribe: HTTP Error 404: Not Found'',
            domain = None, type = None\<rparr>"
  using get_fallback_status_classes
    [of "''https://shop.example/unsub?u=1''" "demo_server 404 ''Not Found''"
        "\<lparr>status = 404, reason = ''Not Found'', body = []\<rparr>" "''shop.example''"]
  by (simp add: demo_defs unsub_defs urlopen_def digit_char_def str_nat.simps)

text \<open>
  Claim C6 as stated fails: a GET that the server answers with a redirect, which
  \<open>urlopen\<close> follows to a page answered by 200, and a GET answered by 200 at once give
  the same result, field by field, so a redirect has no classification of its own.
\<close>

theorem redirect_not_distinguished_counterexample:
  "unsubscribe_single demo_moved ''shop.example'' (Some ''https://shop.example/unsub?u=1'') =
     (Inr \<lparr>success = True, message = ''Unsubscribed (confirmation may be needed)'',
           domain = Some ''shop.example'', type = None\<rparr>,
      [Validate ''https://shop.example/unsub?u=1'', Resolve ''shop.example'',
       HttpRequest POST ''https://shop.example/unsub?u=1'',
       HttpRequest GET ''https://shop.example/unsub?u=1'',
       FollowRedirect ''https://shop.example/goodbye''])
   \<and> unsubscribe_single (demo_server 200 ''OK'') ''shop.example''
         (Some ''https://shop.example/unsub?u=1'') =
     (Inr \<lparr>success = True, message = ''Unsubscribed (confirmation may be needed)'',
           domain = Some ''shop.example'', type = None\<rparr>,
      [Validate ''https://shop.example/unsub?u=1'', Resolve ''shop.example'',
       HttpRequest POST ''https://shop.example/unsub?u=1'',
       HttpRequest GET ''https://shop.example/unsub?u=1''])"
  by (simp add: demo_defs unsub_defs urlopen_def urlopen_events_def digit_char_def
      str_nat.simps)

section \<open>Properties of get\_unsubscribe\_from\_headers\<close>

lemma one_click_scan_eq:
  "one_click_scan hs v =
     (if has_post_header hs
      then (case findall match_http 0 v of
              u # us \<Rightarrow> Some (Some u, Some ''one-click'')
            | [] \<Rightarrow> None)
      else None)"
  by (induction hs) (auto simp: has_post_header_def split: list.splits)

lemma unsubscribe_scan_eq:
  "unsubscribe_scan headers rest =
     (case find carries_link rest of
        None \<Rightarrow> (None, None)
      | Some h \<Rightarrow>
          (case findall match_http 0 (header_value h) of
             u # us \<Rightarrow>
               (Some u, Some (if has_post_header headers then ''one-click'' else ''manual''))
           | [] \<Rightarrow>
               (case findall match_mailto 0 (header_value h) of
                  a # as \<Rightarrow> (Some a, Some ''manual'')
                | [] \<Rightarrow> (None, None))))"
  by (induction rest) (auto simp: one_click_scan_eq carries_link_def split: list.splits)

text \<open>
  Claim C3, as amended.  The result is decided by the first \<open>list-unsubscribe\<close> header
  (names compared in lower case) whose value holds an angle-bracketed HTTP(S) URL or
  \<open>mailto:\<close> URI.  If its value holds an HTTP(S) URL, the link is the first such URL
  and the mode is \<open>one-click\<close> when a \<open>list-unsubscribe-post\<close> header stands anywhere in
  the list, \<open>manual\<close> otherwise.  If it holds only \<open>mailto:\<close> URIs, the link is the first
  of them and the mode is \<open>manual\<close>, with or without the post header.  If there is no such
  header the result is \<open>(None, None)\<close>.
\<close>

theorem unsubscribe_affordance:
  "get_unsubscribe_from_headers headers =
     (case find carries_link headers of
        None \<Rightarrow> (None, None)
      | Some h \<Rightarrow>
          (case findall match_http 0 (header_value h) of
             u # us \<Rightarrow>
               (Some u, Some (if has_post_header headers then ''one-click'' else ''manual''))
           | [] \<Rightarrow>
               (case findall match_mailto 0 (header_value h) of
                  a # as \<Rightarrow> (Some a, Some ''manual'')
                | [] \<Rightarrow> (None, None))))"
  unfolding get_unsubscribe_from_headers_def by (rule unsubscribe_scan_eq)

theorem unsubscribe_affordance_witness:
  "find carries_link demo_one_click =
     Some \<lparr>header_name = ''LIST-UNSUBSCRIBE'',
           header_value = ''<mailto:leave@shop.example>, <https://shop.example/unsub?u=1>''\<rparr>
   \<and> has_post_header demo_one_click
   \<and> get_unsubscribe_from_headers demo_one_click =
       (Some ''https://shop.example/unsub?u=1'', Some ''one-click'')"
proof -
  have a: "find carries_link demo_one_click =
     Some \<lparr>header_name = ''LIST-UNSUBSCRIBE'',
           header_value = ''<mailto:leave@shop.example>, <https://shop.example/unsub?u=1>''\<rparr>"
    by code_simp
  have b: "has_post_header demo_one_click"
    by code_simp
  have c: "findall match_http 0 ''<mailto:leave@shop.example>, <https://shop.example/unsub?u=1>''
             = [''https://shop.example/unsub?u=1'']"
    by code_simp
  show ?thesis
    using unsubscribe_affordance [of demo_one_click] a b c by simp
qed

text \<open>
  Claim C3 as stated fails on a \<open>list-unsubscribe\<close> header with a \<open>mailto:\<close> URI and no
  HTTP(S) URL: the mode is \<open>manual\<close>, not \<open>mailto\<close>, and it stays \<open>manual\<close> when a
  \<open>list-unsubscribe-post\<close> header is present.
\<close>

theorem mailto_mode_counterexample:
  "has_post_header demo_mailto_only
   \<and> findall match_http 0 ''<mailto:leave@shop.example>'' = []
   \<and> findall match_mailto 0 ''<mailto:leave@shop.example>'' = [''mailto:leave@shop.example'']
   \<and> get_unsubscribe_from_headers demo_mailto_only =
       (Some ''mailto:leave@shop.example'', Some ''manual'')
   \<and> get_unsubscribe_from_headers (butlast demo_mailto_only) =
       (Some ''mailto:leave@shop.example'', Some ''manual'')"
  by code_simp

section \<open>Properties of scan\_emails\_api\<close>

lemma publish_simps [simp]:
  "published (publish s st) = published st @ [s]"
  "scan_results (publish s st) = scan_results st"
  by (simp_all add: publish_def)





lemma batch_loop_no_failure:
  "\<forall>i. batch_execute E i = None \<Longrightarrow> fst (batch_loop E ms b acc st) = None"
proof (induction E ms b acc st rule: batch_loop.induct)
  case (1 E messages batch_start acc st)
  show ?case
  proof (cases "batch_start < length messages")
    case False
    then show ?thesis by (simp add: batch_loop.simps)
  next
    case True
    have none: "batch_execute E batch_start = None" using "1.prems" by simp
    show ?thesis
      using True none "1.IH"[OF True refl refl none "1.prems"]
      by (subst batch_loop.simps) (simp add: Let_def)
  qed
qed

lemma error_status_simps [simp]:
  "progress (error_status err) = 0" "error (error_status err) \<noteq> None"
  by (cases err; rename_tac c m; case_tac c; simp add: error_status_def)+




lemma process_message_senders:
  "senders_data (process_message msg acc) =
     (case http_link_of msg of
        None \<Rightarrow> senders_data acc
      | Some l \<Rightarrow>
          (case msg of
             Response headers \<Rightarrow>
               update_sender (sender_domain_of msg)
                 (add_message l (fst (api_get_sender_info headers)) (api_get_subject headers))
                 (senders_data acc)
           | FetchError e \<Rightarrow> senders_data acc))"
  by (simp add: process_message_def http_link_of_def sender_domain_of_def Let_def
      split: fetched.splits option.splits)

lemma run_callbacks_append:
  "run_callbacks (xs @ ys) acc = run_callbacks ys (run_callbacks xs acc)"
  by (induction xs arbitrary: acc) simp_all

lemma batch_loop_acc:
  "\<forall>i. batch_execute E i = None \<Longrightarrow>
   fst (snd (batch_loop E ms b acc st)) = run_callbacks (drop b ms) acc"
proof (induction E ms b acc st rule: batch_loop.induct)
  case (1 E messages batch_start acc st)
  let ?n = "length messages"
  let ?e = "min (batch_start + 100) ?n"
  show ?case
  proof (cases "batch_start < ?n")
    case False
    then show ?thesis by (simp add: batch_loop.simps)
  next
    case True
    have none: "batch_execute E batch_start = None" using "1.prems" by simp
    let ?st = "publish (batch_status ?e ?n) st"
    let ?acc = "run_callbacks (take (?e - batch_start) (drop batch_start messages)) acc"
    have step: "batch_loop E messages batch_start acc st = batch_loop E messages ?e ?acc ?st"
      using True none by (subst batch_loop.simps) (simp add: Let_def)
    have ih: "fst (snd (batch_loop E messages ?e ?acc ?st)) = run_callbacks (drop ?e messages) ?acc"
      by (rule "1.IH"[OF True refl refl none "1.prems"])
    have eq: "?e - batch_start + batch_start = ?e" using True by simp
    have "drop batch_start messages =
        take (?e - batch_start) (drop batch_start messages)
        @ drop (?e - batch_start) (drop batch_start messages)"
      by (simp only: append_take_drop_id)
    also have "drop (?e - batch_start) (drop batch_start messages) = drop ?e messages"
      by (simp only: drop_drop eq)
    finally have split: "drop batch_start messages =
        take (?e - batch_start) (drop batch_start messages) @ drop ?e messages" .
    have "run_callbacks (drop batch_start messages) acc = run_callbacks (drop ?e messages) ?acc"
      by (subst split) (simp only: run_callbacks_append)
    then show ?thesis unfolding step ih by simp
  qed
qed

lemma set_add_props:
  "set_add l xs \<noteq> []" "set (set_add l xs) = insert l (set xs)"
  by (auto simp: set_add_def)

lemma one_sender_step:
  assumes "one_sender d k sd" "startswith l ''http''"
  shows "one_sender d (Suc k) (update_sender d (add_message l f s) sd)"
proof (cases "k = 0")
  case True
  with assms show ?thesis
    by (simp add: one_sender_def add_message_def default_bucket_def set_add_def)
next
  case False
  with assms(1) obtain b where b: "sd = [(d, b)]" "count b = k" "links b \<noteq> []"
    "list_all (\<lambda>l. startswith l ''http'') (links b)"
    by (auto simp: one_sender_def)
  with assms(2) show ?thesis
    by (simp add: one_sender_def add_message_def set_add_props list_all_iff)
qed

lemma one_sender_run:
  "one_sender d k (senders_data acc) \<Longrightarrow>
   \<forall>m\<in>set ms. http_link_of m \<noteq> None \<longrightarrow> sender_domain_of m = d \<Longrightarrow>
   one_sender d (k + length (filter (\<lambda>m. http_link_of m \<noteq> None) ms))
     (senders_data (run_callbacks ms acc))"
proof (induction ms arbitrary: acc k)
  case Nil
  then show ?case by simp
next
  case (Cons m ms)
  show ?case
  proof (cases "http_link_of m")
    case None
    then have "senders_data (process_message m acc) = senders_data acc"
      by (simp add: process_message_senders)
    with Cons.prems have "one_sender d k (senders_data (process_message m acc))" by simp
    from Cons.IH[OF this] Cons.prems(2) None show ?thesis by simp
  next
    case (Some l)
    then obtain headers where m: "m = Response headers"
      by (cases m) (simp_all add: http_link_of_def)
    from Some have http: "startswith l ''http''"
      by (auto simp: http_link_of_def m split: option.splits if_splits)
    from Cons.prems(2) Some have d: "sender_domain_of m = d" by simp
    have "senders_data (process_message m acc) =
        update_sender d (add_message l (fst (api_get_sender_info headers)) (api_get_subject headers))
          (senders_data acc)"
      using Some d by (simp add: process_message_senders m)
    then have "one_sender d (Suc k) (senders_data (process_message m acc))"
      using one_sender_step[OF Cons.prems(1) http] by simp
    from Cons.IH[OF this] Cons.prems(2) Some show ?thesis by simp
  qed
qed

lemma batch_loop_results:
  "scan_results (snd (snd (batch_loop E ms b acc st))) = scan_results st"
proof (induction E ms b acc st rule: batch_loop.induct)
  case (1 E messages batch_start acc st)
  show ?case
  proof (cases "batch_start < length messages")
    case False
    then show ?thesis by (simp add: batch_loop.simps)
  next
    case True
    show ?thesis
    proof (cases "batch_execute E batch_start")
      case (Some err)
      with True show ?thesis by (simp add: batch_loop.simps)
    next
      case None
      show ?thesis
        using True None "1.IH"[OF True refl refl None]
        by (subst batch_loop.simps) (simp add: Let_def publish_def)
    qed
  qed
qed

lemma scan_results_clean:
  assumes "get_gmail_service E = Inr None" and "list_messages E limit = Inr ms"
    and "\<forall>i. batch_execute E i = None"
  shows "scan_results (scan_emails_api E limit) =
           concat (map (emit E) (sorted_senders
             (senders_data (run_callbacks ms \<lparr>processed = 0, senders_data = []\<rparr>))))"
proof (cases "ms = []")
  case True
  with assms show ?thesis
    by (simp add: scan_emails_api_def scan_body_def sorted_senders_def)
next
  case False
  let ?st2 = "publish \<lparr>progress = 15,
                 status_message = ''Found '' @ str_nat (length ms) @ '' emails, batch fetching...'',
                 is_done = False, error = None\<rparr>
               (publish \<lparr>progress = 10, status_message = ''Fetching email list...'',
                          is_done = False, error = None\<rparr>
                  \<lparr>scan_results = [],
                   published = [\<lparr>progress = 5, status_message = ''Connecting to Gmail API...'',
                                 is_done = False, error = None\<rparr>]\<rparr>)"
  let ?acc0 = "\<lparr>processed = 0, senders_data = []\<rparr>"
  let ?r = "batch_loop E ms 0 ?acc0 ?st2"
  have f: "fst ?r = None" by (rule batch_loop_no_failure[OF assms(3)])
  have a: "fst (snd ?r) = run_callbacks ms ?acc0"
    using batch_loop_acc[OF assms(3), of ms 0 ?acc0 ?st2] by simp
  obtain r acc st3 where r: "?r = (r, acc, st3)" by (cases ?r) auto
  with f a have "r = None" "acc = run_callbacks ms ?acc0" by simp_all
  with r assms(1,2) False show ?thesis
    by (simp add: scan_emails_api_def scan_body_def Let_def)
qed

lemma emit_one_sender:
  assumes "\<forall>xs. set (set_order E xs) = set xs"
    and "links b \<noteq> []" and "list_all (\<lambda>l. startswith l ''http'') (links b)"
  shows "map (\<lambda>opp. (opp_domain opp, opp_count opp)) (emit E (d, b)) = [(d, count b)]"
proof -
  let ?xs = "set_order E (links b)"
  have s: "set ?xs = set (links b)" using assms(1) by simp
  with assms(3) have "\<forall>l\<in>set ?xs. startswith l ''http''" by (simp add: list_all_iff)
  then have "filter (\<lambda>l. startswith l ''http'') ?xs = ?xs" by (simp add: filter_id_conv)
  moreover from s assms(2) have "?xs \<noteq> []" by auto
  ultimately show ?thesis by (cases ?xs) (simp_all add: emit_def)
qed

text \<open>
  Claim C8, as amended.  Let the run be clean (the service is there, the listing gives
  the messages \<open>ms\<close>, no batch fails, and iterating over a set visits its members), and
  let every message of \<open>ms\<close> that yields an HTTP(S) link have the sender domain \<open>d\<close>.
  With \<open>M\<close> the number of those messages, the result holds exactly one entry, for \<open>d\<close>
  with count \<open>M\<close>, when \<open>M\<close> is at least 1, and no entry when \<open>M\<close> is 0.  Messages
  whose fetch failed, that have no \<open>list-unsubscribe\<close> link or only a \<open>mailto:\<close> one are
  not counted.
\<close>

theorem one_opportunity_per_domain:
  assumes "get_gmail_service E = Inr None" and "list_messages E limit = Inr ms"
    and "\<forall>i. batch_execute E i = None"
    and "\<forall>xs. set (set_order E xs) = set xs"
    and "\<forall>m\<in>set ms. http_link_of m \<noteq> None \<longrightarrow> sender_domain_of m = d"
  shows "map (\<lambda>opp. (opp_domain opp, opp_count opp)) (scan_results (scan_emails_api E limit)) =
           (if filter (\<lambda>m. http_link_of m \<noteq> None) ms = [] then []
            else [(d, length (filter (\<lambda>m. http_link_of m \<noteq> None) ms))])"
proof -
  let ?M = "length (filter (\<lambda>m. http_link_of m \<noteq> None) ms)"
  let ?sd = "senders_data (run_callbacks ms \<lparr>processed = 0, senders_data = []\<rparr>)"
  have "one_sender d 0 (senders_data \<lparr>processed = 0, senders_data = []\<rparr>)"
    by (simp add: one_sender_def)
  from one_sender_run[OF this assms(5)] have one: "one_sender d ?M ?sd" by simp
  note res = scan_results_clean[OF assms(1-3)]
  show ?thesis
  proof (cases "?M = 0")
    case True
    with one have "?sd = []" by (simp add: one_sender_def)
    with True show ?thesis unfolding res by (simp add: sorted_senders_def)
  next
    case False
    with one obtain b where b: "?sd = [(d, b)]" "count b = ?M" "links b \<noteq> []"
      "list_all (\<lambda>l. startswith l ''http'') (links b)"
      by (auto simp: one_sender_def)
    have "scan_results (scan_emails_api E limit) = emit E (d, b)"
      unfolding res b(1) by (simp add: sorted_senders_def)
    with emit_one_sender[OF assms(4) b(3,4), of d] b(2) False show ?thesis by simp
  qed
qed

theorem one_opportunity_per_domain_witness:
  "list_messages (demo_scan demo_inbox) 500 = Inr demo_inbox
   \<and> length demo_inbox = 4
   \<and> list_all (\<lambda>m. http_link_of m = None \<or> sender_domain_of m = ''shop.example'') demo_inbox
   \<and> length (filter (\<lambda>m. http_link_of m \<noteq> None) demo_inbox) = 2
   \<and> map (\<lambda>opp. (opp_domain opp, opp_count opp))
         (scan_results (scan_emails_api (demo_scan demo_inbox) 500)) = [(''shop.example'', 2)]"
proof -
  have a: "list_messages (demo_scan demo_inbox) 500 = Inr demo_inbox"
    "length demo_inbox = 4"
    by (simp_all add: demo_scan_def demo_inbox_def)
  have b: "list_all (\<lambda>m. http_link_of m = None \<or> sender_domain_of m = ''shop.example'') demo_inbox"
    by code_simp
  then have c: "\<forall>m\<in>set demo_inbox. http_link_of m \<noteq> None \<longrightarrow> sender_domain_of m = ''shop.example''"
    by (auto simp: list_all_iff)
  have d: "length (filter (\<lambda>m. http_link_of m \<noteq> None) demo_inbox) = 2"
    by code_simp
  then have e: "filter (\<lambda>m. http_link_of m \<noteq> None) demo_inbox \<noteq> []"
    by auto
  have f: "get_gmail_service (demo_scan demo_inbox) = Inr None"
    "\<forall>i. batch_execute (demo_scan demo_inbox) i = None"
    "\<forall>xs. set (set_order (demo_scan demo_inbox) xs) = set xs"
    by (simp_all add: demo_scan_def)
  show ?thesis
    using one_opportunity_per_domain [OF f(1) a(1) f(2) f(3) c] a b d e by simp
qed

text \<open>
  Claim C8 as stated fails for M = 0: one message of \<open>shop.example\<close> whose only link is
  a \<open>mailto:\<close> URI gives no entry at all, not one entry with count 0.
\<close>

theorem no_opportunity_without_link_counterexample:
  "map sender_domain_of demo_mailto_inbox = [''shop.example'']
   \<and> map http_link_of demo_mailto_inbox = [None]
   \<and> scan_results (scan_emails_api (demo_scan demo_mailto_inbox) 500) = []"
  by code_simp

lemma update_sender_entries:
  "entry \<in> set (update_sender d f sd) \<Longrightarrow>
   entry \<in> set sd \<or> (fst entry = d \<and> (\<exists>b. (b = default_bucket \<or> (d, b) \<in> set sd) \<and> snd entry = f b))"
  by (induction d f sd rule: update_sender.induct) (auto split: if_splits)

lemma links_from_step:
  assumes "links_from S sd" "m \<in> S" "http_link_of m = Some l" "sender_domain_of m = d"
  shows "links_from S (update_sender d (add_message l f s) sd)"
  unfolding links_from_def
proof (intro ballI)
  fix entry l'
  assume e: "entry \<in> set (update_sender d (add_message l f s) sd)"
    and l': "l' \<in> set (links (snd entry))"
  from update_sender_entries[OF e]
  show "\<exists>m\<in>S. http_link_of m = Some l' \<and> sender_domain_of m = fst entry"
  proof
    assume "entry \<in> set sd"
    with assms(1) l' show ?thesis by (auto simp: links_from_def)
  next
    assume "fst entry = d \<and> (\<exists>b. (b = default_bucket \<or> (d, b) \<in> set sd) \<and> snd entry = add_message l f s b)"
    then obtain b where d: "fst entry = d" and b: "b = default_bucket \<or> (d, b) \<in> set sd"
      and s: "snd entry = add_message l f s b" by blast
    from l' s have "l' = l \<or> l' \<in> set (links b)"
      by (auto simp: add_message_def set_add_props)
    then show ?thesis
    proof
      assume "l' = l"
      with assms(2-4) d show ?thesis by auto
    next
      assume in_b: "l' \<in> set (links b)"
      with b have "(d, b) \<in> set sd" by (auto simp: default_bucket_def)
      with assms(1) in_b d show ?thesis by (fastforce simp: links_from_def)
    qed
  qed
qed

lemma links_from_run:
  "links_from S (senders_data acc) \<Longrightarrow> set ms \<subseteq> S \<Longrightarrow>
   links_from S (senders_data (run_callbacks ms acc))"
proof (induction ms arbitrary: acc)
  case Nil
  then show ?case by simp
next
  case (Cons m ms)
  have "links_from S (senders_data (process_message m acc))"
  proof (cases "http_link_of m")
    case None
    with Cons.prems(1) show ?thesis by (simp add: process_message_senders)
  next
    case (Some l)
    then obtain headers where m: "m = Response headers"
      by (cases m) (simp_all add: http_link_of_def)
    from Cons.prems(2) have "m \<in> S" by simp
    from links_from_step[OF Cons.prems(1) this Some refl]
    show ?thesis using Some by (simp add: process_message_senders m)
  qed
  from Cons.IH[OF this] Cons.prems(2) show ?case by simp
qed

lemma links_from_batch_loop:
  "links_from (set ms) (senders_data acc) \<Longrightarrow>
   links_from (set ms) (senders_data (fst (snd (batch_loop E ms b acc st))))"
proof (induction E ms b acc st rule: batch_loop.induct)
  case (1 E messages batch_start acc st)
  let ?n = "length messages"
  let ?e = "min (batch_start + 100) ?n"
  show ?case
  proof (cases "batch_start < ?n")
    case False
    then show ?thesis using "1.prems" by (simp add: batch_loop.simps)
  next
    case True
    show ?thesis
    proof (cases "batch_execute E batch_start")
      case (Some err)
      with True show ?thesis using "1.prems" by (simp add: batch_loop.simps)
    next
      case None
      let ?st = "publish (batch_status ?e ?n) st"
      let ?batch = "take (?e - batch_start) (drop batch_start messages)"
      let ?acc = "run_callbacks ?batch acc"
      have "set ?batch \<subseteq> set messages"
        by (meson set_take_subset set_drop_subset subset_trans)
      from links_from_run[OF "1.prems" this]
      have "links_from (set messages) (senders_data ?acc)" .
      from "1.IH"[OF True refl refl None this]
      show ?thesis using True None by (subst batch_loop.simps) (simp add: Let_def)
    qed
  qed
qed

lemma scan_results_cases:
  "scan_results (scan_emails_api E limit) = []
   \<or> (\<exists>ms st. list_messages E limit = Inr ms
         \<and> scan_results (scan_emails_api E limit) =
             concat (map (emit E) (sorted_senders (senders_data
               (fst (snd (batch_loop E ms 0 \<lparr>processed = 0, senders_data = []\<rparr> st)))))))"
proof (cases "get_gmail_service E")
  case (Inl err)
  then show ?thesis by (simp add: scan_emails_api_def scan_body_def publish_def)
next
  case (Inr svc)
  show ?thesis
  proof (cases svc)
    case (Some problem)
    with Inr show ?thesis by (simp add: scan_emails_api_def scan_body_def publish_def)
  next
    case None
    show ?thesis
    proof (cases "list_messages E limit")
      case (Inl err)
      with Inr None show ?thesis by (simp add: scan_emails_api_def scan_body_def publish_def)
    next
      case listed: (Inr messages)
      show ?thesis
      proof (cases "messages = []")
        case True
        with Inr None listed show ?thesis
          by (simp add: scan_emails_api_def scan_body_def publish_def)
      next
        case False
        let ?st2 = "publish \<lparr>progress = 15,
                 status_message = ''Found '' @ str_nat (length messages)
                                    @ '' emails, batch fetching...'',
                 is_done = False, error = None\<rparr>
               (publish \<lparr>progress = 10, status_message = ''Fetching email list...'',
                          is_done = False, error = None\<rparr>
                  \<lparr>scan_results = [],
                   published = [\<lparr>progress = 5, status_message = ''Connecting to Gmail API...'',
                                 is_done = False, error = None\<rparr>]\<rparr>)"
        let ?acc0 = "\<lparr>processed = 0, senders_data = []\<rparr>"
        let ?r = "batch_loop E messages 0 ?acc0 ?st2"
        obtain r acc st3 where r: "?r = (r, acc, st3)" by (cases ?r) auto
        have keep: "scan_results st3 = []"
          using batch_loop_results[of E messages 0 ?acc0 ?st2] r by (simp add: publish_def)
        show ?thesis
        proof (cases r)
          case (Some err)
          with Inr None listed False r keep show ?thesis
            by (simp add: scan_emails_api_def scan_body_def publish_def)
        next
          case clean: None
          have "scan_results (scan_emails_api E limit) =
              concat (map (emit E) (sorted_senders (senders_data (fst (snd ?r)))))"
            using Inr None listed False r clean
            by (simp add: scan_emails_api_def scan_body_def publish_def Let_def)
          with listed show ?thesis by blast
        qed
      qed
    qed
  qed
qed

lemma emitted_link:
  assumes "opp \<in> set (emit E entry)" and "\<forall>xs. set (set_order E xs) \<subseteq> set xs"
  shows "opp_domain opp = fst entry \<and> opp_link opp \<in> set (links (snd entry))"
proof -
  let ?http = "filter (\<lambda>l. startswith l ''http'') (set_order E (links (snd entry)))"
  from assms(1) obtain l ls where h: "?http = l # ls" and o: "opp_domain opp = fst entry"
    "opp_link opp = l"
    by (cases ?http) (auto simp: emit_def)
  from h have "l \<in> set ?http" by simp
  then have "l \<in> set (set_order E (links (snd entry)))" by simp
  with assms(2) have "l \<in> set (links (snd entry))" by blast
  with o show ?thesis by simp
qed

lemma representative_link_origin:
  assumes "opp \<in> set (scan_results (scan_emails_api E limit))"
    and "list_messages E limit = Inr ms"
    and "\<forall>xs. set (set_order E xs) \<subseteq> set xs"
  shows "\<exists>m\<in>set ms. http_link_of m = Some (opp_link opp) \<and> sender_domain_of m = opp_domain opp"
proof -
  from assms(1) have "scan_results (scan_emails_api E limit) \<noteq> []" by auto
  with scan_results_cases[of E limit] assms(2) obtain st where
    res: "scan_results (scan_emails_api E limit) =
      concat (map (emit E) (sorted_senders (senders_data
        (fst (snd (batch_loop E ms 0 \<lparr>processed = 0, senders_data = []\<rparr> st))))))"
    by auto
  let ?sd = "senders_data (fst (snd (batch_loop E ms 0 \<lparr>processed = 0, senders_data = []\<rparr> st)))"
  have "links_from (set ms) (senders_data \<lparr>processed = 0, senders_data = []\<rparr>)"
    by (simp add: links_from_def)
  then have lf: "links_from (set ms) ?sd" by (rule links_from_batch_loop)
  from assms(1) res obtain entry where e: "entry \<in> set (sorted_senders ?sd)"
    "opp \<in> set (emit E entry)" by auto
  from e(1) have "entry \<in> set ?sd" by (simp add: sorted_senders_def)
  moreover from emitted_link[OF e(2) assms(3)]
  have "opp_domain opp = fst entry" "opp_link opp \<in> set (links (snd entry))" by simp_all
  ultimately show ?thesis using lf by (fastforce simp: links_from_def)
qed

text \<open>
  Claim C9, as amended.  Take two runs that list the same messages, each under an
  iteration order that visits members of the set only.  An entry of either result
  carries the HTTP(S) link of one of the listed messages of its domain.  If all
  messages of a domain that yield an HTTP(S) link yield the same one, the entries of
  the two runs for that domain carry the same link.
\<close>

theorem representative_link_reproducible:
  assumes "list_messages E1 limit = Inr ms" and "list_messages E2 limit = Inr ms"
    and "\<forall>xs. set (set_order E1 xs) \<subseteq> set xs" and "\<forall>xs. set (set_order E2 xs) \<subseteq> set xs"
    and "opp1 \<in> set (scan_results (scan_emails_api E1 limit))"
    and "opp2 \<in> set (scan_results (scan_emails_api E2 limit))"
    and "opp_domain opp1 = opp_domain opp2"
    and "\<forall>m\<in>set ms. \<forall>m'\<in>set ms.
           sender_domain_of m = opp_domain opp1 \<and> sender_domain_of m' = opp_domain opp1
           \<and> http_link_of m \<noteq> None \<and> http_link_of m' \<noteq> None
           \<longrightarrow> http_link_of m = http_link_of m'"
  shows "opp_link opp1 = opp_link opp2
       \<and> (\<exists>m\<in>set ms. http_link_of m = Some (opp_link opp1)
                     \<and> sender_domain_of m = opp_domain opp1)"
proof -
  from representative_link_origin[OF assms(5,1,3)] obtain m1 where
    m1: "m1 \<in> set ms" "http_link_of m1 = Some (opp_link opp1)"
        "sender_domain_of m1 = opp_domain opp1" by blast
  from representative_link_origin[OF assms(6,2,4)] obtain m2 where
    m2: "m2 \<in> set ms" "http_link_of m2 = Some (opp_link opp2)"
        "sender_domain_of m2 = opp_domain opp2" by blast
  from assms(8) m1(1) m2(1)
  have "sender_domain_of m1 = opp_domain opp1 \<and> sender_domain_of m2 = opp_domain opp1
        \<and> http_link_of m1 \<noteq> None \<and> http_link_of m2 \<noteq> None
        \<longrightarrow> http_link_of m1 = http_link_of m2"
    by blast
  with m1(2,3) m2(2,3) assms(7) have "http_link_of m1 = http_link_of m2" by simp
  with m1 m2 show ?thesis by auto
qed

lemma demo_two_senders_results:
  "scan_results (scan_emails_api (demo_scan demo_two_senders) 500) =
     [\<lparr>opp_domain = ''news.example'', opp_count = 2, opp_from = ''Daily <daily@news.example>'',
       opp_link = ''https://news.example/off?id=7'',
       opp_subjects = [''Weekly offers'', ''Weekly offers'']\<rparr>,
      demo_shop_entry]"
  "scan_results (scan_emails_api (demo_scan_reversed demo_two_senders) 500) =
     [\<lparr>opp_domain = ''news.example'', opp_count = 2, opp_from = ''Daily <daily@news.example>'',
       opp_link = ''https://news.example/off?id=8'',
       opp_subjects = [''Weekly offers'', ''Weekly offers'']\<rparr>,
      demo_shop_entry]"
  by code_simp+

lemma demo_two_senders_messages:
  "map http_link_of demo_two_senders =
     [Some ''https://news.example/off?id=7'', Some ''https://shop.example/unsub?u=1'',
      Some ''https://shop.example/unsub?u=1'', Some ''https://news.example/off?id=8'']"
  "map sender_domain_of demo_two_senders =
     [''news.example'', ''shop.example'', ''shop.example'', ''news.example'']"
  by code_simp+

theorem representative_link_reproducible_witness:
  "list_messages (demo_scan demo_two_senders) 500 = Inr demo_two_senders
   \<and> list_messages (demo_scan_reversed demo_two_senders) 500 = Inr demo_two_senders
   \<and> demo_shop_entry \<in> set (scan_results (scan_emails_api (demo_scan demo_two_senders) 500))
   \<and> demo_shop_entry
        \<in> set (scan_results (scan_emails_api (demo_scan_reversed demo_two_senders) 500))
   \<and> map http_link_of demo_two_senders =
        [Some ''https://news.example/off?id=7'', Some ''https://shop.example/unsub?u=1'',
         Some ''https://shop.example/unsub?u=1'', Some ''https://news.example/off?id=8'']
   \<and> map sender_domain_of demo_two_senders =
        [''news.example'', ''shop.example'', ''shop.example'', ''news.example'']
   \<and> map opp_link (scan_results (scan_emails_api (demo_scan demo_two_senders) 500)) =
        [''https://news.example/off?id=7'', ''https://shop.example/unsub?u=1'']
   \<and> map opp_link (scan_results (scan_emails_api (demo_scan_reversed demo_two_senders) 500)) =
        [''https://news.example/off?id=8'', ''https://shop.example/unsub?u=1'']"
proof -
  have a: "list_messages (demo_scan demo_two_senders) 500 = Inr demo_two_senders"
    "list_messages (demo_scan_reversed demo_two_senders) 500 = Inr demo_two_senders"
    by (simp_all add: demo_scan_def demo_scan_reversed_def demo_two_senders_def)
  have b: "\<forall>xs. set (set_order (demo_scan demo_two_senders) xs) \<subseteq> set xs"
    "\<forall>xs. set (set_order (demo_scan_reversed demo_two_senders) xs) \<subseteq> set xs"
    by (simp_all add: demo_scan_def demo_scan_reversed_def)
  have c: "demo_shop_entry \<in> set (scan_results (scan_emails_api (demo_scan demo_two_senders) 500))"
    by (simp add: demo_two_senders_results)
  have d: "demo_shop_entry
        \<in> set (scan_results (scan_emails_api (demo_scan_reversed demo_two_senders) 500))"
    by (simp add: demo_two_senders_results)
  have f: "\<forall>m\<in>set demo_two_senders. \<forall>m'\<in>set demo_two_senders.
           sender_domain_of m = opp_domain demo_shop_entry
           \<and> sender_domain_of m' = opp_domain demo_shop_entry
           \<and> http_link_of m \<noteq> None \<and> http_link_of m' \<noteq> None
           \<longrightarrow> http_link_of m = http_link_of m'"
    using demo_two_senders_messages
    by (simp add: demo_two_senders_def demo_shop_entry_def)
  show ?thesis
    using representative_link_reproducible [OF a b c d refl f] a c d
      demo_two_senders_messages demo_two_senders_results
    by (simp add: demo_shop_entry_def)
qed

text \<open>
  Claim C9 as stated fails when a domain has two links: the same messages give the
  link \<open>u=1\<close> under one iteration order of the set and \<open>u=2\<close> under the reverse order,
  and the code takes whichever comes first.
\<close>

theorem representative_link_order_counterexample:
  "list_messages (demo_scan demo_inbox) 500 = list_messages (demo_scan_reversed demo_inbox) 500
   \<and> map opp_link (scan_results (scan_emails_api (demo_scan demo_inbox) 500)) =
       [''https://shop.example/unsub?u=1'']
   \<and> map opp_link (scan_results (scan_emails_api (demo_scan_reversed demo_inbox) 500)) =
       [''https://shop.example/unsub?u=2'']"
  by code_simp

end
